theory Spec2Isabelle
  imports Complex_Main
begin

section \<open>Flattened density vectors and superoperator matrices (obe.py)\<close>

text \<open>
  The optical Bloch equations act on the density matrix of an \<open>n\<close>-state system, flattened
  into a vector of length \<open>n\<^sup>2\<close>.  The evolution matrices are dense arrays of shape
  \<open>(n\<^sup>2, n\<^sup>2)\<close> created by \<open>np.zeros\<close> and filled by index; they are modelled as total
  functions from a row and a column index to an entry, the shape being carried by \<open>n\<close>.
  Entries are exact complex numbers (the idealisation of \<open>complex128\<close>).
\<close>

type_synonym cmat = "nat \<Rightarrow> nat \<Rightarrow> complex"
type_synonym cvec = "nat \<Rightarrow> complex"

definition zeros_mat :: cmat where
  "zeros_mat = (\<lambda>a b. 0)"

text \<open>\<open>obe.density_index\<close>: \<open>return ii + jj*self.hamiltonian.n\<close>.\<close>

definition density_index :: "nat \<Rightarrow> nat \<Rightarrow> nat \<Rightarrow> nat" where
  "density_index n ii jj = ii + jj * n"

text \<open>\<open>M[a, b] += x\<close> and \<open>M[a, b] = x\<close> on a dense array.\<close>

definition mat_add_at :: "cmat \<Rightarrow> nat \<Rightarrow> nat \<Rightarrow> complex \<Rightarrow> cmat" where
  "mat_add_at M a b x = M(a := (M a)(b := M a b + x))"

definition mat_set_at :: "cmat \<Rightarrow> nat \<Rightarrow> nat \<Rightarrow> complex \<Rightarrow> cmat" where
  "mat_set_at M a b x = M(a := (M a)(b := x))"

text \<open>The product \<open>A @ x\<close> of an \<open>N \<times> N\<close> array with a vector of length \<open>N\<close>.\<close>

definition matvec :: "nat \<Rightarrow> cmat \<Rightarrow> cvec \<Rightarrow> cvec" where
  "matvec N M v a = (\<Sum>b<N. M a b * v b)"

text \<open>The flattening of a matrix \<open>\<rho>\<close>: entry \<open>(i, j)\<close> sits at index \<open>i + j*n\<close>.\<close>

definition flatten :: "nat \<Rightarrow> cmat \<Rightarrow> cvec" where
  "flatten n \<rho> = (\<lambda>a. \<rho> (a mod n) (a div n))"

text \<open>
  \<open>obe.build_coherent_ev_submatrix\<close>: three nested loops over \<open>range(n)\<close>, each body
  performing the two accumulations
  \<^verbatim>\<open>ev_mat[di(ii, jj), di(ii, kk)] += 1j*H[kk, jj]\<close> and
  \<^verbatim>\<open>ev_mat[di(ii, jj), di(kk, jj)] -= 1j*H[ii, kk]\<close>.
\<close>

definition coherent_body :: "nat \<Rightarrow> cmat \<Rightarrow> nat \<Rightarrow> nat \<Rightarrow> nat \<Rightarrow> cmat \<Rightarrow> cmat" where
  "coherent_body n H ii jj kk M =
     mat_add_at
       (mat_add_at M (density_index n ii jj) (density_index n ii kk) (\<i> * H kk jj))
       (density_index n ii jj) (density_index n kk jj) (- (\<i> * H ii kk))"

definition build_coherent_ev_submatrix :: "nat \<Rightarrow> cmat \<Rightarrow> cmat" where
  "build_coherent_ev_submatrix n H =
     fold (\<lambda>ii. fold (\<lambda>jj. fold (\<lambda>kk. coherent_body n H ii jj kk) [0..<n]) [0..<n]) [0..<n]
       zeros_mat"

section \<open>Index arithmetic\<close>

lemma density_index_less:
  assumes "i < n" "j < n"
  shows "density_index n i j < n * n"
proof -
  have "i + j * n < n + j * n" using assms by simp
  also have "\<dots> = (Suc j) * n" by simp
  also have "\<dots> \<le> n * n" using assms by (metis Suc_leI mult_le_mono1)
  finally show ?thesis by (simp add: density_index_def)
qed

lemma density_index_inj:
  assumes "i < n" "i' < n"
  shows "density_index n i j = density_index n i' j' \<longleftrightarrow> i = i' \<and> j = j'"
proof
  assume eq: "density_index n i j = density_index n i' j'"
  have "(i + j * n) mod n = i" "(i' + j' * n) mod n = i'" using assms by simp_all
  with eq have ii: "i = i'" by (simp add: density_index_def)
  have "(i + j * n) div n = j" "(i' + j' * n) div n = j'" using assms by simp_all
  with eq have "j = j'" by (simp add: density_index_def)
  with ii show "i = i' \<and> j = j'" by simp
qed simp

lemma flatten_density_index:
  "i < n \<Longrightarrow> flatten n \<rho> (density_index n i j) = \<rho> i j"
  by (simp add: flatten_def density_index_def)

section \<open>Loops that accumulate\<close>

lemma fold_additive:
  fixes g :: "'s \<Rightarrow> complex"
  assumes "\<And>k M. k \<in> set xs \<Longrightarrow> g (f k M) = g M + c k"
  shows "g (fold f xs M) = g M + sum_list (map c xs)"
  using assms by (induction xs arbitrary: M) (simp_all add: add.assoc)

lemma fold_additive_upt:
  fixes g :: "'s \<Rightarrow> complex"
  assumes "\<And>k M. k < n \<Longrightarrow> g (f k M) = g M + c k"
  shows "g (fold f [0..<n] M) = g M + (\<Sum>k<n. c k)"
proof -
  have "g (fold f [0..<n] M) = g M + sum_list (map c [0..<n])"
    by (rule fold_additive) (simp add: assms)
  also have "sum_list (map c [0..<n]) = (\<Sum>k<n. c k)"
    by (simp add: interv_sum_list_conv_sum_set_nat atLeast0LessThan)
  finally show ?thesis .
qed

lemma matvec_add_at:
  "matvec N (mat_add_at M a b x) v r =
     matvec N M v r + (if r = a \<and> b < N then x * v b else 0)"
proof (cases "r = a")
  case False
  then show ?thesis by (simp add: matvec_def mat_add_at_def)
next
  case True
  have "matvec N (mat_add_at M a b x) v a =
          (\<Sum>c<N. M a c * v c + (if c = b then x * v b else 0))"
    unfolding matvec_def mat_add_at_def
    by (rule sum.cong) (simp_all add: algebra_simps)
  also have "\<dots> = matvec N M v a + (\<Sum>c<N. if c = b then x * v b else 0)"
    by (simp add: sum.distrib matvec_def)
  also have "(\<Sum>c<N. if c = b then x * v b else 0) = (if b < N then x * v b else 0)"
    by (simp add: sum.delta')
  finally show ?thesis using True by simp
qed

section \<open>The coherent superoperator\<close>

lemma coherent_body_matvec:
  assumes "ii < n" "jj < n" "kk < n"
  shows "matvec (n * n) (coherent_body n H ii jj kk M) v r =
           matvec (n * n) M v r +
           (if r = density_index n ii jj
            then \<i> * H kk jj * v (density_index n ii kk)
                 - \<i> * H ii kk * v (density_index n kk jj)
            else 0)"
  using assms
  by (simp add: coherent_body_def matvec_add_at density_index_less)

lemma coherent_inner_matvec:
  assumes "ii < n" "jj < n"
  shows "matvec (n * n) (fold (\<lambda>kk. coherent_body n H ii jj kk) [0..<n] M) v r =
           matvec (n * n) M v r +
           (\<Sum>kk<n. if r = density_index n ii jj
              then \<i> * H kk jj * v (density_index n ii kk)
                   - \<i> * H ii kk * v (density_index n kk jj)
              else 0)"
  by (rule fold_additive_upt
        [where g = "\<lambda>M. matvec (n * n) M v r" and f = "\<lambda>kk. coherent_body n H ii jj kk"])
     (simp add: coherent_body_matvec assms)

lemma coherent_middle_matvec:
  assumes "ii < n"
  shows "matvec (n * n)
           (fold (\<lambda>jj. fold (\<lambda>kk. coherent_body n H ii jj kk) [0..<n]) [0..<n] M) v r =
           matvec (n * n) M v r +
           (\<Sum>jj<n. \<Sum>kk<n. if r = density_index n ii jj
              then \<i> * H kk jj * v (density_index n ii kk)
                   - \<i> * H ii kk * v (density_index n kk jj)
              else 0)"
  by (rule fold_additive_upt
        [where g = "\<lambda>M. matvec (n * n) M v r"
           and f = "\<lambda>jj. fold (\<lambda>kk. coherent_body n H ii jj kk) [0..<n]"])
     (simp add: coherent_inner_matvec assms)

lemma coherent_matvec_sum:
  "matvec (n * n) (build_coherent_ev_submatrix n H) v r =
     (\<Sum>ii<n. \<Sum>jj<n. \<Sum>kk<n. if r = density_index n ii jj
        then \<i> * H kk jj * v (density_index n ii kk)
             - \<i> * H ii kk * v (density_index n kk jj)
        else 0)"
proof -
  have z: "matvec (n * n) zeros_mat v r = 0"
    by (simp add: matvec_def zeros_mat_def)
  have "matvec (n * n) (build_coherent_ev_submatrix n H) v r =
          matvec (n * n) zeros_mat v r +
          (\<Sum>ii<n. \<Sum>jj<n. \<Sum>kk<n. if r = density_index n ii jj
             then \<i> * H kk jj * v (density_index n ii kk)
                  - \<i> * H ii kk * v (density_index n kk jj)
             else 0)"
    unfolding build_coherent_ev_submatrix_def
    by (rule fold_additive_upt
          [where g = "\<lambda>M. matvec (n * n) M v r"
             and f = "\<lambda>ii. fold (\<lambda>jj. fold (\<lambda>kk. coherent_body n H ii jj kk) [0..<n]) [0..<n]"])
       (simp add: coherent_middle_matvec)
  then show ?thesis by (simp add: z)
qed

lemma coherent_matvec_entry:
  assumes i: "i < n" and j: "j < n"
  shows "matvec (n * n) (build_coherent_ev_submatrix n H) v (density_index n i j) =
           (\<Sum>k<n. \<i> * H k j * v (density_index n i k)
                    - \<i> * H i k * v (density_index n k j))"
proof -
  let ?T = "\<lambda>ii jj. (\<Sum>kk<n. \<i> * H kk jj * v (density_index n ii kk)
                              - \<i> * H ii kk * v (density_index n kk jj))"
  have inner: "(\<Sum>kk<n. if density_index n i j = density_index n ii jj
                   then \<i> * H kk jj * v (density_index n ii kk)
                        - \<i> * H ii kk * v (density_index n kk jj)
                   else 0) = (if ii = i \<and> jj = j then ?T ii jj else 0)"
    if "ii < n" for ii jj
    using density_index_inj[OF i that, of j jj] by auto
  have "matvec (n * n) (build_coherent_ev_submatrix n H) v (density_index n i j) =
          (\<Sum>ii<n. \<Sum>jj<n. if ii = i \<and> jj = j then ?T ii jj else 0)"
    unfolding coherent_matvec_sum
    by (intro sum.cong refl) (simp add: inner)
  also have "\<dots> = (\<Sum>ii<n. if ii = i then (\<Sum>jj<n. if jj = j then ?T ii jj else 0) else 0)"
    by (intro sum.cong refl) simp
  also have "\<dots> = (\<Sum>jj<n. if jj = j then ?T i jj else 0)"
    using i by (simp add: sum.delta)
  also have "\<dots> = ?T i j"
    using j by (simp add: sum.delta)
  finally show ?thesis .
qed

lemma coherent_commutator:
  assumes i: "i < n" and j: "j < n"
  shows "matvec (n * n) (build_coherent_ev_submatrix n H) (flatten n \<rho>) (density_index n i j) =
           \<i> * ((\<Sum>k<n. \<rho> i k * H k j) - (\<Sum>k<n. H i k * \<rho> k j))"
proof -
  have "matvec (n * n) (build_coherent_ev_submatrix n H) (flatten n \<rho>) (density_index n i j) =
          (\<Sum>k<n. \<i> * H k j * \<rho> i k - \<i> * H i k * \<rho> k j)"
    unfolding coherent_matvec_entry[OF i j]
    by (intro sum.cong refl) (simp add: flatten_density_index i)
  also have "\<dots> = \<i> * ((\<Sum>k<n. \<rho> i k * H k j) - (\<Sum>k<n. H i k * \<rho> k j))"
    by (simp add: sum_subtractf sum_distrib_left right_diff_distrib mult_ac)
  finally show ?thesis .
qed

definition ex_H2 :: cmat where
  "ex_H2 = (\<lambda>i j. if i = 0 \<and> j = 1 then 1 else 0)"

definition ex_rho2 :: cmat where
  "ex_rho2 = (\<lambda>i j. if i = 0 \<and> j = 0 then 1 else 0)"

text \<open>
  C1 (as stated): the matrix returned by \<open>build_coherent_ev_submatrix(H)\<close>, applied to the
  flattened \<open>\<rho>\<close>, would give the flattening of \<open>i[H,\<rho>] = i(H\<rho> - \<rho>H)\<close>.  For the
  two-state \<open>H\<close> with the single entry \<open>H[0,1] = 1\<close> and \<open>\<rho>\<close> with the single entry
  \<open>\<rho>[0,0] = 1\<close> the code yields \<open>+i\<close> at index \<open>(0,1)\<close>, where \<open>i(H\<rho> - \<rho>H)\<close> is \<open>-i\<close>.
\<close>

theorem C1_sign_counterexample:
  "matvec (2 * 2) (build_coherent_ev_submatrix 2 ex_H2) (flatten 2 ex_rho2)
       (density_index 2 0 1)
     \<noteq> \<i> * ((\<Sum>k<2. ex_H2 0 k * ex_rho2 k 1) - (\<Sum>k<2. ex_rho2 0 k * ex_H2 k 1))"
proof -
  have two: "{..<2::nat} = {0, 1}" by auto
  have "\<i> * ((\<Sum>k<2. ex_rho2 0 k * ex_H2 k 1) - (\<Sum>k<2. ex_H2 0 k * ex_rho2 k 1)) = \<i>"
    by (simp add: two ex_H2_def ex_rho2_def)
  then have "matvec (2 * 2) (build_coherent_ev_submatrix 2 ex_H2) (flatten 2 ex_rho2)
          (density_index 2 0 1) = \<i>"
    by (subst coherent_commutator) simp_all
  moreover have "\<i> * ((\<Sum>k<2. ex_H2 0 k * ex_rho2 k 1) - (\<Sum>k<2. ex_rho2 0 k * ex_H2 k 1)) = - \<i>"
    by (simp add: two ex_H2_def ex_rho2_def)
  ultimately show ?thesis by (simp add: complex_eq_iff)
qed

text \<open>
  C1 (amended): for every \<open>n \<times> n\<close> matrix \<open>H\<close>, the matrix returned by
  \<open>build_coherent_ev_submatrix(H)\<close> acts on any vector \<open>v\<close> of length \<open>n\<^sup>2\<close> by the stated
  index algebra (row \<open>(i,j)\<close> collects \<open>i\<cdot>H[k,j]\<close> from column \<open>(i,k)\<close> and \<open>-i\<cdot>H[i,k]\<close> from
  column \<open>(k,j)\<close>, and nothing else), and hence sends the flattening of \<open>\<rho>\<close> to the
  flattening of \<open>-i[H,\<rho>] = i(\<rho>H - H\<rho>)\<close>.
\<close>

theorem C1_coherent_submatrix:
  assumes "i < n" and "j < n"
  shows "matvec (n * n) (build_coherent_ev_submatrix n H) v (density_index n i j) =
           (\<Sum>k<n. \<i> * H k j * v (density_index n i k)
                    - \<i> * H i k * v (density_index n k j))
       \<and> matvec (n * n) (build_coherent_ev_submatrix n H) (flatten n \<rho>) (density_index n i j) =
           \<i> * ((\<Sum>k<n. \<rho> i k * H k j) - (\<Sum>k<n. H i k * \<rho> k j))"
  using coherent_matvec_entry[OF assms] coherent_commutator[OF assms] by blast

theorem C1_coherent_submatrix_witness:
  "(0::nat) < 2 \<and> (1::nat) < 2 \<and>
   matvec (2 * 2) (build_coherent_ev_submatrix 2 ex_H2) (flatten 2 ex_rho2)
       (density_index 2 0 1) = \<i>"
proof -
  have two: "{..<2::nat} = {0, 1}" by auto
  have h0: "(0::nat) < 2" and h1: "(1::nat) < 2" by simp_all
  have "\<i> * ((\<Sum>k<2. ex_rho2 0 k * ex_H2 k 1) - (\<Sum>k<2. ex_H2 0 k * ex_rho2 k 1)) = \<i>"
    by (simp add: two ex_H2_def ex_rho2_def)
  with C1_coherent_submatrix[OF h0 h1, of ex_H2 _ ex_rho2, THEN conjunct2] h0 h1
  show ?thesis by (simp only: simp_thms)
qed

section \<open>The real-basis change of basis\<close>

text \<open>The product \<open>A @ B\<close> of two \<open>N \<times> N\<close> arrays.\<close>

definition matmul :: "nat \<Rightarrow> cmat \<Rightarrow> cmat \<Rightarrow> cmat" where
  "matmul N A B = (\<lambda>a c. \<Sum>b<N. A a b * B b c)"

text \<open>
  \<open>obe.build_transform_matrices\<close> fills the two arrays \<open>self.U\<close> and \<open>self.Uinv\<close>: a loop
  over \<open>range(n)\<close> writes the diagonal entries of both, then one loop nest
  \<open>for ii in range(n): for jj in range(ii+1, n)\<close> writes four entries of \<open>U\<close>, and a second
  such nest writes four entries of \<open>Uinv\<close>.
\<close>

record transform =
  U_mat :: cmat
  Uinv_mat :: cmat

definition transform_diag_body :: "nat \<Rightarrow> nat \<Rightarrow> transform \<Rightarrow> transform" where
  "transform_diag_body n ii s =
     \<lparr> U_mat = mat_set_at (U_mat s) (density_index n ii ii) (density_index n ii ii) 1,
       Uinv_mat = mat_set_at (Uinv_mat s) (density_index n ii ii) (density_index n ii ii) 1 \<rparr>"

text \<open>The four assignments of one pair \<open>(ii, jj)\<close>, in the order of the source.\<close>

definition pair_body :: "nat \<Rightarrow> complex \<Rightarrow> complex \<Rightarrow> complex \<Rightarrow> complex \<Rightarrow> nat \<Rightarrow> nat \<Rightarrow> cmat \<Rightarrow> cmat" where
  "pair_body n w x y z ii jj M =
     mat_set_at
       (mat_set_at
         (mat_set_at
           (mat_set_at M (density_index n ii jj) (density_index n ii jj) w)
           (density_index n ii jj) (density_index n jj ii) x)
         (density_index n jj ii) (density_index n ii jj) y)
       (density_index n jj ii) (density_index n jj ii) z"

definition transform_U_body :: "nat \<Rightarrow> nat \<Rightarrow> nat \<Rightarrow> transform \<Rightarrow> transform" where
  "transform_U_body n ii jj s = s\<lparr> U_mat := pair_body n 1 \<i> 1 (- \<i>) ii jj (U_mat s) \<rparr>"

definition transform_Uinv_body :: "nat \<Rightarrow> nat \<Rightarrow> nat \<Rightarrow> transform \<Rightarrow> transform" where
  "transform_Uinv_body n ii jj s =
     s\<lparr> Uinv_mat := pair_body n (1/2) (1/2) (- (1/2) * \<i>) ((1/2) * \<i>) ii jj (Uinv_mat s) \<rparr>"

definition build_transform_matrices :: "nat \<Rightarrow> transform" where
  "build_transform_matrices n =
     (let s0 = \<lparr> U_mat = zeros_mat, Uinv_mat = zeros_mat \<rparr>;
          s1 = fold (transform_diag_body n) [0..<n] s0;
          s2 = fold (\<lambda>ii. fold (transform_U_body n ii) [ii + 1..<n]) [0..<n] s1;
          s3 = fold (\<lambda>ii. fold (transform_Uinv_body n ii) [ii + 1..<n]) [0..<n] s2
      in s3)"

lemma mat_set_at_apply:
  "mat_set_at M a b x r c = (if r = a \<and> c = b then x else M r c)"
  by (simp add: mat_set_at_def)

lemma fold_proj:
  assumes "\<And>k s. p (f k s) = f' k (p s)"
  shows "p (fold f xs s) = fold f' xs (p s)"
  using assms by (induction xs arbitrary: s) simp_all

lemma fold_entry_other:
  fixes M :: cmat
  assumes "\<And>k M. k \<in> set xs \<Longrightarrow> f k M r c = M r c"
  shows "fold f xs M r c = M r c"
  using assms by (induction xs arbitrary: M) simp_all

lemma fold_entry_hit:
  fixes M :: cmat
  assumes "k \<in> set xs"
    and "\<And>M. f k M r c = x"
    and "\<And>k' M. k' \<in> set xs \<Longrightarrow> k' \<noteq> k \<Longrightarrow> f k' M r c = M r c"
  shows "fold f xs M r c = x"
  using assms
proof (induction xs arbitrary: M)
  case Nil
  then show ?case by simp
next
  case (Cons y ys)
  show ?case
  proof (cases "k \<in> set ys")
    case True
    then show ?thesis using Cons by simp
  next
    case False
    then have yk: "y = k" using Cons.prems(1) by simp
    have "fold f ys (f k M) r c = f k M r c"
      by (rule fold_entry_other) (use Cons.prems(3) False in auto)
    then show ?thesis using yk Cons.prems(2) by simp
  qed
qed


lemma fold_row_other:
  fixes M :: cmat
  assumes "\<And>k M. k \<in> set xs \<Longrightarrow> f k M r = M r"
  shows "fold f xs M r = M r"
  using assms by (induction xs arbitrary: M) simp_all

lemma fold_row_single:
  fixes M :: cmat
  assumes "k \<in> set xs" and "distinct xs"
    and other: "\<And>k' M. k' \<in> set xs \<Longrightarrow> k' \<noteq> k \<Longrightarrow> f k' M r = M r"
    and cong: "\<And>M M'. M r = M' r \<Longrightarrow> f k M r = f k M' r"
  shows "fold f xs M r = f k M r"
  using assms(1,2,3)
proof (induction xs arbitrary: M)
  case Nil
  then show ?case by simp
next
  case (Cons y ys)
  show ?case
  proof (cases "y = k")
    case True
    then have "k \<notin> set ys" using Cons.prems(2) by simp
    then have "fold f ys (f k M) r = f k M r"
      by (intro fold_row_other Cons.prems(3)) auto
    then show ?thesis using True by simp
  next
    case False
    then have kin: "k \<in> set ys" using Cons.prems(1) by simp
    have "fold f ys (f y M) r = f k (f y M) r"
      using Cons.IH[OF kin] Cons.prems(2,3) by simp
    also have "\<dots> = f k M r"
      by (rule cong) (use Cons.prems(3)[of y M] False in simp)
    finally show ?thesis by simp
  qed
qed

definition swap_index :: "nat \<Rightarrow> nat \<Rightarrow> nat" where
  "swap_index n r = density_index n (r div n) (r mod n)"

lemma density_index_mod_div: "density_index n (r mod n) (r div n) = r"
  by (simp add: density_index_def)

lemma index_less_parts:
  fixes r n :: nat
  assumes "r < n * n"
  shows "r mod n < n" "r div n < n"
proof -
  have "0 < n" using assms by (cases n) simp_all
  then show "r mod n < n" by simp
  show "r div n < n" using assms by (simp add: less_mult_imp_div_less)
qed

lemma pair_body_row_other:
  assumes "r \<noteq> density_index n ii jj" "r \<noteq> density_index n jj ii"
  shows "pair_body n w x y z ii jj M r = M r"
  using assms by (simp add: pair_body_def mat_set_at_def)

lemma pair_body_row_cong:
  assumes "M r = M' r"
  shows "pair_body n w x y z ii jj M r = pair_body n w x y z ii jj M' r"
  using assms by (auto simp add: pair_body_def mat_set_at_def fun_eq_iff)

lemma pair_rows_other:
  assumes lh: "lo < hi" "hi < n" and ij: "ii < jj" "jj < n"
    and r: "r = density_index n lo hi \<or> r = density_index n hi lo"
    and ne: "ii \<noteq> lo \<or> jj \<noteq> hi"
  shows "r \<noteq> density_index n ii jj \<and> r \<noteq> density_index n jj ii"
proof -
  have lo: "lo < n" and ii: "ii < n" using lh ij by simp_all
  note a = density_index_inj[OF lo ii, of hi jj]
  note b = density_index_inj[OF lo ij(2), of hi ii]
  note c = density_index_inj[OF lh(2) ii, of lo jj]
  note d = density_index_inj[OF lh(2) ij(2), of lo ii]
  show ?thesis using r ne lh(1) ij(1) a b c d by (elim disjE) simp_all
qed

lemma pair_rows_not_diag:
  assumes i: "i < n" and ij: "ii < jj" "jj < n"
  shows "density_index n i i \<noteq> density_index n ii jj
       \<and> density_index n i i \<noteq> density_index n jj ii"
proof -
  have ii: "ii < n" using ij by simp
  show ?thesis
    using density_index_inj[OF i ii, of i jj] density_index_inj[OF i ij(2), of i ii] ij(1)
    by simp
qed

text \<open>The loop nest \<open>for ii in range(n): for jj in range(ii+1, n)\<close> over one array.\<close>

definition pair_loops :: "nat \<Rightarrow> complex \<Rightarrow> complex \<Rightarrow> complex \<Rightarrow> complex \<Rightarrow> cmat \<Rightarrow> cmat" where
  "pair_loops n w x y z M =
     fold (\<lambda>ii. fold (pair_body n w x y z ii) [ii + 1..<n]) [0..<n] M"

lemma pair_inner_other:
  assumes lh: "lo < hi" "hi < n"
    and r: "r = density_index n lo hi \<or> r = density_index n hi lo"
    and ne: "ii \<noteq> lo"
  shows "fold (pair_body n w x y z ii) [ii + 1..<n] M r = M r"
proof (rule fold_row_other)
  fix jj M
  assume "jj \<in> set [ii + 1..<n]"
  then have jj: "ii < jj" "jj < n" by simp_all
  have "ii \<noteq> lo \<or> jj \<noteq> hi" using ne by simp
  from pair_rows_other[OF lh jj r this]
  show "pair_body n w x y z ii jj M r = M r"
    by (intro pair_body_row_other) simp_all
qed

lemma pair_inner_diag:
  assumes i: "i < n"
  shows "fold (pair_body n w x y z ii) [ii + 1..<n] M (density_index n i i) =
           M (density_index n i i)"
proof (rule fold_row_other)
  fix jj M
  assume "jj \<in> set [ii + 1..<n]"
  then have jj: "ii < jj" "jj < n" by simp_all
  from pair_rows_not_diag[OF i jj]
  show "pair_body n w x y z ii jj M (density_index n i i) = M (density_index n i i)"
    by (intro pair_body_row_other) simp_all
qed

lemma pair_inner_single:
  assumes lh: "lo < hi" "hi < n"
    and r: "r = density_index n lo hi \<or> r = density_index n hi lo"
  shows "fold (pair_body n w x y z lo) [lo + 1..<n] M r = pair_body n w x y z lo hi M r"
proof (rule fold_row_single)
  show "hi \<in> set [lo + 1..<n]" using lh by simp
  show "distinct [lo + 1..<n]" by simp
next
  fix jj M
  assume "jj \<in> set [lo + 1..<n]" and neq: "jj \<noteq> hi"
  then have jj: "lo < jj" "jj < n" by simp_all
  have "lo \<noteq> lo \<or> jj \<noteq> hi" using neq by simp
  from pair_rows_other[OF lh jj r this]
  show "pair_body n w x y z lo jj M r = M r"
    by (intro pair_body_row_other) simp_all
next
  fix M M' :: cmat
  assume "M r = M' r"
  then show "pair_body n w x y z lo hi M r = pair_body n w x y z lo hi M' r"
    by (rule pair_body_row_cong)
qed

lemma pair_loops_offdiag:
  assumes lh: "lo < hi" "hi < n"
    and r: "r = density_index n lo hi \<or> r = density_index n hi lo"
  shows "pair_loops n w x y z M r = pair_body n w x y z lo hi M r"
proof -
  have "pair_loops n w x y z M r = fold (pair_body n w x y z lo) [lo + 1..<n] M r"
    unfolding pair_loops_def
  proof (rule fold_row_single[where k = lo])
    show "lo \<in> set [0..<n]" using lh by simp
    show "distinct [0..<n]" by simp
  next
    fix ii M
    assume "ii \<in> set [0..<n]" "ii \<noteq> lo"
    then show "fold (pair_body n w x y z ii) [ii + 1..<n] M r = M r"
      using pair_inner_other[OF lh r] by simp
  next
    fix M M' :: cmat
    assume "M r = M' r"
    then show "fold (pair_body n w x y z lo) [lo + 1..<n] M r =
               fold (pair_body n w x y z lo) [lo + 1..<n] M' r"
      unfolding pair_inner_single[OF lh r] by (rule pair_body_row_cong)
  qed
  then show ?thesis by (simp only: pair_inner_single[OF lh r])
qed

lemma pair_loops_diag:
  assumes "i < n"
  shows "pair_loops n w x y z M (density_index n i i) = M (density_index n i i)"
  unfolding pair_loops_def
proof (rule fold_row_other)
  fix ii M
  show "fold (pair_body n w x y z ii) [ii + 1..<n] M (density_index n i i) =
          M (density_index n i i)"
    by (rule pair_inner_diag[OF assms])
qed


definition diag_loop :: "nat \<Rightarrow> cmat \<Rightarrow> cmat" where
  "diag_loop n M =
     fold (\<lambda>ii M. mat_set_at M (density_index n ii ii) (density_index n ii ii) 1) [0..<n] M"

lemma diag_loop_diag:
  assumes i: "i < n"
  shows "diag_loop n M (density_index n i i) =
           mat_set_at M (density_index n i i) (density_index n i i) 1 (density_index n i i)"
  unfolding diag_loop_def
proof (rule fold_row_single[where k = i])
  show "i \<in> set [0..<n]" using i by simp
  show "distinct [0..<n]" by simp
next
  fix ii M
  assume "ii \<in> set [0..<n]" "ii \<noteq> i"
  then have "density_index n i i \<noteq> density_index n ii ii"
    using density_index_inj[OF i, of ii i ii] by simp
  then show "mat_set_at M (density_index n ii ii) (density_index n ii ii) 1 (density_index n i i)
               = M (density_index n i i)"
    by (simp add: mat_set_at_def)
next
  fix M M' :: cmat
  assume "M (density_index n i i) = M' (density_index n i i)"
  then show "mat_set_at M (density_index n i i) (density_index n i i) 1 (density_index n i i) =
             mat_set_at M' (density_index n i i) (density_index n i i) 1 (density_index n i i)"
    by (simp add: mat_set_at_def)
qed

lemma diag_loop_offdiag:
  assumes lh: "lo < hi" "hi < n"
    and r: "r = density_index n lo hi \<or> r = density_index n hi lo"
  shows "diag_loop n M r = M r"
  unfolding diag_loop_def
proof (rule fold_row_other)
  fix ii M
  assume "ii \<in> set [0..<n]"
  then have ii: "ii < n" by simp
  have lo: "lo < n" using lh by simp
  have "r \<noteq> density_index n ii ii"
    using r lh(1) density_index_inj[OF lo ii, of hi ii] density_index_inj[OF lh(2) ii, of lo ii]
    by (elim disjE) simp_all
  then show "mat_set_at M (density_index n ii ii) (density_index n ii ii) 1 r = M r"
    by (simp add: mat_set_at_def)
qed

text \<open>The rows of an array filled by the diagonal loop and one pair loop nest.\<close>

definition pair_matrix :: "nat \<Rightarrow> complex \<Rightarrow> complex \<Rightarrow> complex \<Rightarrow> complex \<Rightarrow> cmat" where
  "pair_matrix n w x y z = pair_loops n w x y z (diag_loop n zeros_mat)"

lemma pair_matrix_diag:
  assumes "i < n"
  shows "pair_matrix n w x y z (density_index n i i) c =
           (if c = density_index n i i then 1 else 0)"
  by (simp add: pair_matrix_def pair_loops_diag[OF assms] diag_loop_diag[OF assms]
        mat_set_at_def zeros_mat_def)

lemma pair_rows_ne:
  assumes "lo < hi" "hi < n"
  shows "density_index n lo hi \<noteq> density_index n hi lo"
  using assms density_index_inj[of lo n hi hi lo] by simp

lemma pair_matrix_upper:
  assumes lh: "lo < hi" "hi < n"
  shows "pair_matrix n w x y z (density_index n lo hi) c =
           (if c = density_index n lo hi then w
            else if c = density_index n hi lo then x else 0)"
proof -
  have r: "density_index n lo hi = density_index n lo hi \<or>
           density_index n lo hi = density_index n hi lo" by simp
  show ?thesis
    using pair_rows_ne[OF lh]
    by (simp add: pair_matrix_def pair_loops_offdiag[OF lh r] pair_body_def mat_set_at_def
          diag_loop_offdiag[OF lh r] zeros_mat_def)
qed

lemma pair_matrix_lower:
  assumes lh: "lo < hi" "hi < n"
  shows "pair_matrix n w x y z (density_index n hi lo) c =
           (if c = density_index n hi lo then z
            else if c = density_index n lo hi then y else 0)"
proof -
  have r: "density_index n hi lo = density_index n lo hi \<or>
           density_index n hi lo = density_index n hi lo" by simp
  show ?thesis
    using pair_rows_ne[OF lh]
    by (simp add: pair_matrix_def pair_loops_offdiag[OF lh r] pair_body_def mat_set_at_def
          diag_loop_offdiag[OF lh r] zeros_mat_def)
qed

lemma sum_two_support:
  fixes f :: "nat \<Rightarrow> complex"
  assumes "p < N" "q < N" "p \<noteq> q" and "\<And>b. b \<noteq> p \<Longrightarrow> b \<noteq> q \<Longrightarrow> f b = 0"
  shows "(\<Sum>b<N. f b) = f p + f q"
proof -
  have "(\<Sum>b<N. f b) = (\<Sum>b\<in>{p, q}. f b)"
    by (rule sum.mono_neutral_right) (use assms in auto)
  then show ?thesis using assms(3) by simp
qed

lemma sum_one_support:
  fixes f :: "nat \<Rightarrow> complex"
  assumes "p < N" and "\<And>b. b \<noteq> p \<Longrightarrow> f b = 0"
  shows "(\<Sum>b<N. f b) = f p"
proof -
  have "(\<Sum>b<N. f b) = (\<Sum>b\<in>{p}. f b)"
    by (rule sum.mono_neutral_right) (use assms in auto)
  then show ?thesis by simp
qed

lemma pair_matrix_product:
  assumes inv: "w * w' + x * y' = 1" "w * x' + x * z' = 0"
               "z * z' + y * x' = 1" "z * y' + y * w' = 0"
    and r: "r < n * n"
  shows "matmul (n * n) (pair_matrix n w x y z) (pair_matrix n w' x' y' z') r c =
           (if r = c then 1 else 0)"
proof -
  let ?P = "pair_matrix n w x y z" and ?Q = "pair_matrix n w' x' y' z'"
  let ?i = "r mod n" and ?j = "r div n"
  have i: "?i < n" and j: "?j < n" using index_less_parts[OF r] by simp_all
  have rr: "r = density_index n ?i ?j" by (simp add: density_index_mod_div)
  consider (d) "?i = ?j" | (u) "?i < ?j" | (l) "?j < ?i" by linarith
  then show ?thesis
  proof cases
    case d
    have e: "density_index n ?j ?j = r"
      using density_index_mod_div[of n r] d by simp
    have Pr: "?P r b = (if b = r then 1 else 0)" for b
      using pair_matrix_diag[OF j, of w x y z b] e by simp
    have Qr: "?Q r b = (if b = r then 1 else 0)" for b
      using pair_matrix_diag[OF j, of w' x' y' z' b] e by simp
    have "(\<Sum>b<n * n. ?P r b * ?Q b c) = ?P r r * ?Q r c"
      by (rule sum_one_support[OF r]) (simp add: Pr)
    also have "\<dots> = (if r = c then 1 else 0)"
      by (auto simp add: Pr Qr)
    finally show ?thesis by (simp add: matmul_def)
  next
    case u
    let ?a = "density_index n ?i ?j" and ?b = "density_index n ?j ?i"
    have ab: "?a \<noteq> ?b" by (rule pair_rows_ne[OF u j])
    have b: "?b < n * n" by (rule density_index_less[OF j i])
    have a: "?a < n * n" by (rule density_index_less[OF i j])
    have "(\<Sum>k<n * n. ?P ?a k * ?Q k c) = ?P ?a ?a * ?Q ?a c + ?P ?a ?b * ?Q ?b c"
      by (rule sum_two_support[OF a b ab]) (simp add: pair_matrix_upper[OF u j])
    also have "\<dots> = (if ?a = c then 1 else 0)"
      using ab inv by (auto simp add: pair_matrix_upper[OF u j] pair_matrix_lower[OF u j])
    finally show ?thesis using rr by (simp add: matmul_def)
  next
    case l
    let ?a = "density_index n ?j ?i" and ?b = "density_index n ?i ?j"
    have ab: "?a \<noteq> ?b" by (rule pair_rows_ne[OF l i])
    have b: "?b < n * n" by (rule density_index_less[OF i j])
    have a: "?a < n * n" by (rule density_index_less[OF j i])
    have "(\<Sum>k<n * n. ?P ?b k * ?Q k c) = ?P ?b ?b * ?Q ?b c + ?P ?b ?a * ?Q ?a c"
      by (rule sum_two_support[OF b a ab[symmetric]]) (simp add: pair_matrix_lower[OF l i])
    also have "\<dots> = (if ?b = c then 1 else 0)"
      using ab inv by (auto simp add: pair_matrix_upper[OF l i] pair_matrix_lower[OF l i])
    finally show ?thesis using rr by (simp add: matmul_def)
  qed
qed

lemma fold_inv:
  assumes "\<And>k s. p (f k s) = p s"
  shows "p (fold f xs s) = p s"
  using assms by (induction xs arbitrary: s) simp_all

lemma build_transform_U:
  "U_mat (build_transform_matrices n) = pair_matrix n 1 \<i> 1 (- \<i>)"
proof -
  let ?s0 = "\<lparr> U_mat = zeros_mat, Uinv_mat = zeros_mat \<rparr>"
  let ?s1 = "fold (transform_diag_body n) [0..<n] ?s0"
  let ?s2 = "fold (\<lambda>ii. fold (transform_U_body n ii) [ii + 1..<n]) [0..<n] ?s1"
  have inner: "U_mat (fold (transform_U_body n ii) xs s) =
                 fold (pair_body n 1 \<i> 1 (- \<i>) ii) xs (U_mat s)" for ii xs s
    by (rule fold_proj) (simp add: transform_U_body_def)
  have "U_mat (build_transform_matrices n) = U_mat ?s2"
    unfolding build_transform_matrices_def Let_def
    by (rule fold_inv) (rule fold_inv, simp add: transform_Uinv_body_def)
  also have "\<dots> = pair_loops n 1 \<i> 1 (- \<i>) (U_mat ?s1)"
    unfolding pair_loops_def by (rule fold_proj) (rule inner)
  also have "U_mat ?s1 = diag_loop n zeros_mat"
    unfolding diag_loop_def
    by (subst fold_proj[where p = U_mat and f' = "\<lambda>ii M. mat_set_at M (density_index n ii ii)
          (density_index n ii ii) 1"]) (simp_all add: transform_diag_body_def)
  finally show ?thesis by (simp add: pair_matrix_def)
qed

lemma build_transform_Uinv:
  "Uinv_mat (build_transform_matrices n) =
     pair_matrix n (1/2) (1/2) (- (1/2) * \<i>) ((1/2) * \<i>)"
proof -
  let ?s0 = "\<lparr> U_mat = zeros_mat, Uinv_mat = zeros_mat \<rparr>"
  let ?s1 = "fold (transform_diag_body n) [0..<n] ?s0"
  let ?s2 = "fold (\<lambda>ii. fold (transform_U_body n ii) [ii + 1..<n]) [0..<n] ?s1"
  have inner: "Uinv_mat (fold (transform_Uinv_body n ii) xs s) =
                 fold (pair_body n (1/2) (1/2) (- (1/2) * \<i>) ((1/2) * \<i>) ii) xs (Uinv_mat s)"
    for ii xs s
    by (rule fold_proj) (simp add: transform_Uinv_body_def)
  have "Uinv_mat (build_transform_matrices n) =
          pair_loops n (1/2) (1/2) (- (1/2) * \<i>) ((1/2) * \<i>) (Uinv_mat ?s2)"
    unfolding build_transform_matrices_def Let_def pair_loops_def
    by (rule fold_proj) (rule inner)
  also have "Uinv_mat ?s2 = Uinv_mat ?s1"
    by (rule fold_inv) (rule fold_inv, simp add: transform_U_body_def)
  also have "Uinv_mat ?s1 = diag_loop n zeros_mat"
    unfolding diag_loop_def
    by (subst fold_proj[where p = Uinv_mat and f' = "\<lambda>ii M. mat_set_at M (density_index n ii ii)
          (density_index n ii ii) 1"]) (simp_all add: transform_diag_body_def)
  finally show ?thesis by (simp add: pair_matrix_def)
qed

lemma Uinv_U_identity:
  assumes "a < n * n"
  shows "matmul (n * n) (Uinv_mat (build_transform_matrices n))
           (U_mat (build_transform_matrices n)) a c = (if a = c then 1 else 0)"
  unfolding build_transform_U build_transform_Uinv
  by (rule pair_matrix_product[OF _ _ _ _ assms]) simp_all

lemma U_Uinv_identity:
  assumes "a < n * n"
  shows "matmul (n * n) (U_mat (build_transform_matrices n))
           (Uinv_mat (build_transform_matrices n)) a c = (if a = c then 1 else 0)"
  unfolding build_transform_U build_transform_Uinv
  by (rule pair_matrix_product[OF _ _ _ _ assms]) simp_all

text \<open>
  C6: for every state count \<open>n \<ge> 1\<close> the matrices built by \<open>build_transform_matrices\<close>
  satisfy \<open>Uinv\<cdot>U = U\<cdot>Uinv = I\<close> on the \<open>n\<^sup>2\<close>-dimensional flattened density space: every
  entry \<open>(a, c)\<close> of either product with a row index below \<open>n\<^sup>2\<close> is \<open>1\<close> on the diagonal
  and \<open>0\<close> off it.
\<close>

theorem C6_transform_inverse:
  assumes "1 \<le> n" and "a < n * n"
  shows "matmul (n * n) (Uinv_mat (build_transform_matrices n))
           (U_mat (build_transform_matrices n)) a c = (if a = c then 1 else 0)
       \<and> matmul (n * n) (U_mat (build_transform_matrices n))
           (Uinv_mat (build_transform_matrices n)) a c = (if a = c then 1 else 0)"
  using Uinv_U_identity[OF assms(2)] U_Uinv_identity[OF assms(2)] by blast

theorem C6_transform_inverse_witness:
  "(1::nat) \<le> 2 \<and> (3::nat) < 2 * 2
   \<and> matmul (2 * 2) (Uinv_mat (build_transform_matrices 2))
           (U_mat (build_transform_matrices 2)) 3 3 = 1
   \<and> matmul (2 * 2) (U_mat (build_transform_matrices 2))
           (Uinv_mat (build_transform_matrices 2)) 3 1 = 0"
proof -
  have h1: "(1::nat) \<le> 2" and h2: "(3::nat) < 2 * 2" by simp_all
  from C6_transform_inverse[OF h1 h2, of 3] C6_transform_inverse[OF h1 h2, of 1] h1 h2
  show ?thesis by simp
qed

section \<open>The state of an \<open>obe\<close> instance\<close>

text \<open>Python exceptions, as values.\<close>

datatype py_error = ValueError | KeyError | AttributeError | TypeError | IndexError
  | UnboundLocalError

text \<open>
  A numpy array handed in by a caller may hold NaN or infinite entries, and carries a
  dtype; both are inspected by \<open>set_initial_rho\<close>.
\<close>

datatype elem = Finite complex | NaN | Inf

datatype dtype = Float64 | Complex128 | OtherDtype

record ndarray =
  arr_dtype :: dtype
  arr_data :: "elem list"

text \<open>The result object of the integrator: sample times and one state column per sample.\<close>

record solution =
  sol_t :: "real list"
  sol_dtype :: dtype
  sol_y :: "elem list list"

text \<open>
  Arguments of the external field models.  Python passes positions (arrays) and times
  (scalars) untyped, so a callee sees whichever the caller put in each slot.
\<close>

datatype pyarg = PyScalar complex | PyVector "complex list"

text \<open>
  The dictionary \<open>self.ev_mat\<close>: the entries \<open>decay\<close>, \<open>H0\<close> and \<open>B\<close> (three components) are
  always present; \<open>E\<close> and \<open>E*\<close> (complex basis) or \<open>reE\<close> and \<open>imE\<close> (real basis) are
  dictionaries from a laser key to three components.  A deleted or absent dictionary is
  the empty map: looking a key up in it raises \<open>KeyError\<close> either way.
\<close>

record ev_mats =
  ev_decay :: cmat
  ev_H0 :: cmat
  ev_B :: "nat \<Rightarrow> cmat"
  ev_E :: "string \<rightharpoonup> (nat \<Rightarrow> cmat)"
  ev_Estar :: "string \<rightharpoonup> (nat \<Rightarrow> cmat)"
  ev_reE :: "string \<rightharpoonup> (nat \<Rightarrow> cmat)"
  ev_imE :: "string \<rightharpoonup> (nat \<Rightarrow> cmat)"

text \<open>
  The fields of \<open>obe\<close> that the modelled methods read or write.  \<open>laserBeams\<close> is the
  dictionary of laser-beam collections in insertion order, each represented by its
  \<open>total_electric_field\<close> method; \<open>magField\<close> by its \<open>Field\<close> method.  Both are external
  collaborators, taken as they are given.
\<close>

record obe =
  ham_n :: nat
  transform_into_re_im :: bool
  laserBeams :: "(string \<times> (pyarg \<Rightarrow> pyarg \<Rightarrow> nat \<Rightarrow> complex)) list"
  magField :: "pyarg \<Rightarrow> nat \<Rightarrow> complex"
  ev_mat :: ev_mats
  r0 :: ndarray
  v0 :: ndarray
  rho0 :: ndarray
  sol :: "solution option"

text \<open>\<open>obe.set_initial_position\<close>, \<open>obe.set_initial_velocity\<close> and their combination.\<close>

definition set_initial_position :: "obe \<Rightarrow> ndarray \<Rightarrow> obe" where
  "set_initial_position s r = s\<lparr> r0 := r, sol := None \<rparr>"

definition set_initial_velocity :: "obe \<Rightarrow> ndarray \<Rightarrow> obe" where
  "set_initial_velocity s v = s\<lparr> v0 := v, sol := None \<rparr>"

definition set_initial_position_and_velocity :: "obe \<Rightarrow> ndarray \<Rightarrow> ndarray \<Rightarrow> obe" where
  "set_initial_position_and_velocity s r v =
     set_initial_velocity (set_initial_position s r) v"

text \<open>\<open>np.isnan\<close>, \<open>np.isinf\<close>, \<open>np.real\<close> and \<open>astype('complex128')\<close> on arrays.\<close>

definition np_any_isnan :: "ndarray \<Rightarrow> bool" where
  "np_any_isnan a = list_ex (\<lambda>x. x = NaN) (arr_data a)"

definition np_any_isinf :: "ndarray \<Rightarrow> bool" where
  "np_any_isinf a = list_ex (\<lambda>x. x = Inf) (arr_data a)"

fun elem_real :: "elem \<Rightarrow> elem" where
  "elem_real (Finite z) = Finite (complex_of_real (Re z))"
| "elem_real NaN = NaN"
| "elem_real Inf = Inf"

definition np_real :: "ndarray \<Rightarrow> ndarray" where
  "np_real a = \<lparr> arr_dtype = (if arr_dtype a = Complex128 then Float64 else arr_dtype a),
                 arr_data = map elem_real (arr_data a) \<rparr>"

definition astype_complex128 :: "ndarray \<Rightarrow> ndarray" where
  "astype_complex128 a = a\<lparr> arr_dtype := Complex128 \<rparr>"

text \<open>
  \<open>obe.set_initial_rho\<close>: rejects NaN and Inf, then stores \<open>rho0\<close>, converted to the dtype
  of the basis in use.  It assigns \<open>self.rho0\<close> only.
\<close>

definition set_initial_rho :: "obe \<Rightarrow> ndarray \<Rightarrow> py_error + obe" where
  "set_initial_rho s rho =
     (if np_any_isnan rho \<or> np_any_isinf rho then Inl ValueError
      else if transform_into_re_im s \<and> arr_dtype rho = Complex128
        then Inr (s\<lparr> rho0 := np_real rho \<rparr>)
      else if \<not> transform_into_re_im s \<and> arr_dtype rho \<noteq> Complex128
        then Inr (s\<lparr> rho0 := astype_complex128 rho \<rparr>)
      else Inr (s\<lparr> rho0 := rho \<rparr>))"

section \<open>Initial conditions and the stored trajectory\<close>

text \<open>A two-state instance in the real basis that holds a trajectory of one sample.\<close>

definition ex_zero3 :: ndarray where
  "ex_zero3 = \<lparr> arr_dtype = Float64, arr_data = [Finite 0, Finite 0, Finite 0] \<rparr>"

definition ex_rho_ground :: ndarray where
  "ex_rho_ground = \<lparr> arr_dtype = Float64, arr_data = [Finite 1, Finite 0, Finite 0, Finite 0] \<rparr>"

definition ex_solution :: solution where
  "ex_solution = \<lparr> sol_t = [0], sol_dtype = Float64,
     sol_y = [[Finite 1, Finite 0, Finite 0, Finite 0,
               Finite 0, Finite 0, Finite 0, Finite 0, Finite 0, Finite 0]] \<rparr>"

definition ex_ev_mats :: ev_mats where
  "ex_ev_mats = \<lparr> ev_decay = zeros_mat, ev_H0 = zeros_mat, ev_B = (\<lambda>q. zeros_mat),
     ev_E = Map.empty, ev_Estar = Map.empty, ev_reE = Map.empty, ev_imE = Map.empty \<rparr>"

definition ex_obe :: obe where
  "ex_obe = \<lparr> ham_n = 2, transform_into_re_im = True, laserBeams = [],
     magField = (\<lambda>R q. 0), ev_mat = ex_ev_mats,
     r0 = ex_zero3, v0 = ex_zero3, rho0 = ex_rho_ground, sol = Some ex_solution \<rparr>"

text \<open>
  C8 (as stated): \<open>set_initial_rho\<close> with a valid \<open>rho0\<close> would reset the stored trajectory.
  On an instance that holds a trajectory the call succeeds and the trajectory is still
  there.
\<close>

theorem C8_sol_kept_counterexample:
  "sol ex_obe = Some ex_solution
   \<and> \<not> np_any_isnan ex_rho_ground \<and> \<not> np_any_isinf ex_rho_ground
   \<and> set_initial_rho ex_obe ex_rho_ground = Inr ex_obe
   \<and> sol ex_obe \<noteq> None"
  by (simp add: set_initial_rho_def ex_obe_def ex_rho_ground_def np_any_isnan_def
        np_any_isinf_def)

text \<open>
  C8 (amended): for every \<open>obe\<close> instance, \<open>set_initial_rho\<close> with a valid \<open>rho0\<close> (no NaN,
  no Inf) succeeds and changes no state besides \<open>rho0\<close>; in particular the stored
  trajectory is left as it was, whereas \<open>set_initial_position\<close> and
  \<open>set_initial_velocity\<close> reset it to \<open>None\<close> and change nothing else besides \<open>r0\<close>,
  respectively \<open>v0\<close>.
\<close>

theorem C8_set_initial_rho_frame:
  assumes "\<not> np_any_isnan rho" and "\<not> np_any_isinf rho"
  shows "(\<exists>rho'. set_initial_rho s rho = Inr (s\<lparr> rho0 := rho' \<rparr>)
            \<and> sol (s\<lparr> rho0 := rho' \<rparr>) = sol s)
       \<and> set_initial_position s r = s\<lparr> r0 := r, sol := None \<rparr>
       \<and> set_initial_velocity s v = s\<lparr> v0 := v, sol := None \<rparr>"
  using assms
  by (auto simp add: set_initial_rho_def set_initial_position_def set_initial_velocity_def)

theorem C8_set_initial_rho_frame_witness:
  "\<not> np_any_isnan ex_rho_ground \<and> \<not> np_any_isinf ex_rho_ground
   \<and> (\<exists>rho'. set_initial_rho ex_obe ex_rho_ground = Inr (ex_obe\<lparr> rho0 := rho' \<rparr>)
          \<and> sol (ex_obe\<lparr> rho0 := rho' \<rparr>) = Some ex_solution)"
proof -
  have h1: "\<not> np_any_isnan ex_rho_ground" and h2: "\<not> np_any_isinf ex_rho_ground"
    by (simp_all add: ex_rho_ground_def np_any_isnan_def np_any_isinf_def)
  have "sol ex_obe = Some ex_solution" by (simp add: ex_obe_def)
  with C8_set_initial_rho_frame[OF h1 h2, of ex_obe] h1 h2
  show ?thesis by auto
qed

section \<open>Assembling the generator and the right-hand side\<close>

text \<open>Entrywise array arithmetic.\<close>

definition mat_add :: "cmat \<Rightarrow> cmat \<Rightarrow> cmat" where
  "mat_add A B = (\<lambda>a b. A a b + B a b)"

definition mat_sub :: "cmat \<Rightarrow> cmat \<Rightarrow> cmat" where
  "mat_sub A B = (\<lambda>a b. A a b - B a b)"

definition mat_scale :: "complex \<Rightarrow> cmat \<Rightarrow> cmat" where
  "mat_scale x A = (\<lambda>a b. x * A a b)"

definition vec_add :: "cvec \<Rightarrow> cvec \<Rightarrow> cvec" where
  "vec_add u v = (\<lambda>a. u a + v a)"

definition vec_sub :: "cvec \<Rightarrow> cvec \<Rightarrow> cvec" where
  "vec_sub u v = (\<lambda>a. u a - v a)"

definition vec_scale :: "complex \<Rightarrow> cvec \<Rightarrow> cvec" where
  "vec_scale x v = (\<lambda>a. x * v a)"

text \<open>A loop whose body may raise: the first error ends it.\<close>

fun efold :: "('a \<Rightarrow> 's \<Rightarrow> py_error + 's) \<Rightarrow> 'a list \<Rightarrow> 's \<Rightarrow> py_error + 's" where
  "efold f [] s = Inr s"
| "efold f (x # xs) s = (case f x s of Inl e \<Rightarrow> Inl e | Inr s' \<Rightarrow> efold f xs s')"

text \<open>\<open>range(3)\<close>, and the threshold \<open>1e-10\<close> below which a field component is skipped.\<close>

definition range3 :: "nat list" where
  "range3 = [0, 1, 2]"

definition field_threshold :: real where
  "field_threshold = 1 / 10 ^ 10"

text \<open>\<open>np.real\<close> on an argument of a field model.\<close>

fun np_real_arg :: "pyarg \<Rightarrow> pyarg" where
  "np_real_arg (PyScalar z) = PyScalar (complex_of_real (Re z))"
| "np_real_arg (PyVector v) = PyVector (map (\<lambda>z. complex_of_real (Re z)) v)"

text \<open>
  \<open>obe.return_magnetic_field(self, t, r)\<close>: evaluates the field model at its second
  argument; in the complex basis the Cartesian components are turned into spherical ones.
\<close>

definition return_magnetic_field :: "obe \<Rightarrow> pyarg \<Rightarrow> pyarg \<Rightarrow> nat \<Rightarrow> complex" where
  "return_magnetic_field s t r =
     (let B = magField s r in
      if transform_into_re_im s then B
      else (\<lambda>q. if q = 0 then B 0 / complex_of_real (sqrt 2) + \<i> * B 1 / complex_of_real (sqrt 2)
                 else if q = 1 then B 2
                 else if q = 2 then - B 0 / complex_of_real (sqrt 2) + \<i> * B 1 / complex_of_real (sqrt 2)
                 else 0))"

text \<open>
  \<open>obe.drhodt(self, r, t, rho)\<close>.  The body of the loop over \<open>range(3)\<close> for one laser key,
  then the loop over the keys, then the magnetic terms.
\<close>

definition drhodt_E_body ::
  "obe \<Rightarrow> string \<Rightarrow> cvec \<Rightarrow> (nat \<Rightarrow> complex) \<Rightarrow> nat \<Rightarrow> cvec \<Rightarrow> py_error + cvec" where
  "drhodt_E_body s key rho Eq ii d =
     (let N = ham_n s * ham_n s in
      if cmod (Eq ii) > field_threshold then
        (if transform_into_re_im s then
           (case ev_reE (ev_mat s) key of None \<Rightarrow> Inl KeyError | Some reE \<Rightarrow>
            (case ev_imE (ev_mat s) key of None \<Rightarrow> Inl KeyError | Some imE \<Rightarrow>
               Inr (vec_sub
                     (vec_sub d (vec_scale (complex_of_real (1/2 * Re (Eq ii))) (matvec N (reE ii) rho)))
                     (vec_scale (complex_of_real (1/2 * Im (Eq ii))) (matvec N (imE ii) rho)))))
         else
           (case ev_E (ev_mat s) key of None \<Rightarrow> Inl KeyError | Some E \<Rightarrow>
            (case ev_Estar (ev_mat s) key of None \<Rightarrow> Inl KeyError | Some Estar \<Rightarrow>
               Inr (vec_sub
                     (vec_sub d (vec_scale (1/2 * cnj (Eq ii)) (matvec N (E ii) rho)))
                     (vec_scale (1/2 * Eq ii) (matvec N (Estar ii) rho))))))
      else Inr d)"

definition drhodt_key_body ::
  "obe \<Rightarrow> complex list \<Rightarrow> real \<Rightarrow> cvec \<Rightarrow>
   string \<times> (pyarg \<Rightarrow> pyarg \<Rightarrow> nat \<Rightarrow> complex) \<Rightarrow> cvec \<Rightarrow> py_error + cvec" where
  "drhodt_key_body s r t rho kv d =
     (let Eq = (if transform_into_re_im s
                then snd kv (PyVector r) (PyScalar (complex_of_real t))
                else snd kv (np_real_arg (PyVector r)) (PyScalar (complex_of_real t)))
      in efold (drhodt_E_body s (fst kv) rho Eq) range3 d)"

definition drhodt_B_body :: "obe \<Rightarrow> cvec \<Rightarrow> (nat \<Rightarrow> complex) \<Rightarrow> nat \<Rightarrow> cvec \<Rightarrow> cvec" where
  "drhodt_B_body s rho Bq ii d =
     (if cmod (Bq ii) > field_threshold
      then vec_add d (vec_scale (Bq ii) (matvec (ham_n s * ham_n s) (ev_B (ev_mat s) ii) rho))
      else d)"

definition drhodt :: "obe \<Rightarrow> complex list \<Rightarrow> real \<Rightarrow> cvec \<Rightarrow> py_error + cvec" where
  "drhodt s r t rho =
     (let N = ham_n s * ham_n s;
          d0 = vec_add (matvec N (ev_decay (ev_mat s)) rho) (matvec N (ev_H0 (ev_mat s)) rho)
      in case efold (drhodt_key_body s r t rho) (laserBeams s) d0 of
           Inl e \<Rightarrow> Inl e
         | Inr d1 \<Rightarrow>
             (let Bq = return_magnetic_field s (PyScalar (complex_of_real t)) (PyVector r)
              in Inr (fold (drhodt_B_body s rho Bq) range3 d1)))"

text \<open>
  \<open>obe.full_OBE_ev(self, r, t)\<close>: the same assembly on the matrices themselves.  The
  calls are transcribed with the argument order of the source:
  \<^verbatim>\<open>total_electric_field(t, np.real(r))\<close> in the complex basis and
  \<^verbatim>\<open>self.return_magnetic_field(r, t)\<close>.
\<close>

definition full_OBE_ev_E_body ::
  "obe \<Rightarrow> string \<Rightarrow> (nat \<Rightarrow> complex) \<Rightarrow> nat \<Rightarrow> cmat \<Rightarrow> py_error + cmat" where
  "full_OBE_ev_E_body s key Eq ii M =
     (if cmod (Eq ii) > field_threshold then
        (if transform_into_re_im s then
           (case ev_reE (ev_mat s) key of None \<Rightarrow> Inl KeyError | Some reE \<Rightarrow>
            (case ev_imE (ev_mat s) key of None \<Rightarrow> Inl KeyError | Some imE \<Rightarrow>
               Inr (mat_sub
                     (mat_sub M (mat_scale (complex_of_real (1/2 * Re (Eq ii))) (reE ii)))
                     (mat_scale (complex_of_real (1/2 * Im (Eq ii))) (imE ii)))))
         else
           (case ev_E (ev_mat s) key of None \<Rightarrow> Inl KeyError | Some E \<Rightarrow>
            (case ev_Estar (ev_mat s) key of None \<Rightarrow> Inl KeyError | Some Estar \<Rightarrow>
               Inr (mat_sub
                     (mat_sub M (mat_scale (1/2 * cnj (Eq ii)) (E ii)))
                     (mat_scale (1/2 * Eq ii) (Estar ii))))))
      else Inr M)"

definition full_OBE_ev_key_body ::
  "obe \<Rightarrow> complex list \<Rightarrow> real \<Rightarrow>
   string \<times> (pyarg \<Rightarrow> pyarg \<Rightarrow> nat \<Rightarrow> complex) \<Rightarrow> cmat \<Rightarrow> py_error + cmat" where
  "full_OBE_ev_key_body s r t kv M =
     (let Eq = (if transform_into_re_im s
                then snd kv (PyVector r) (PyScalar (complex_of_real t))
                else snd kv (PyScalar (complex_of_real t)) (np_real_arg (PyVector r)))
      in efold (full_OBE_ev_E_body s (fst kv) Eq) range3 M)"

definition full_OBE_ev_B_body :: "obe \<Rightarrow> (nat \<Rightarrow> complex) \<Rightarrow> nat \<Rightarrow> cmat \<Rightarrow> cmat" where
  "full_OBE_ev_B_body s Bq ii M =
     (if cmod (Bq ii) > field_threshold
      then mat_add M (mat_scale (Bq ii) (ev_B (ev_mat s) ii))
      else M)"

definition full_OBE_ev :: "obe \<Rightarrow> complex list \<Rightarrow> real \<Rightarrow> py_error + cmat" where
  "full_OBE_ev s r t =
     (let M0 = mat_add (ev_decay (ev_mat s)) (ev_H0 (ev_mat s))
      in case efold (full_OBE_ev_key_body s r t) (laserBeams s) M0 of
           Inl e \<Rightarrow> Inl e
         | Inr M1 \<Rightarrow>
             (let Bq = return_magnetic_field s (PyVector r) (PyScalar (complex_of_real t))
              in Inr (fold (full_OBE_ev_B_body s Bq) range3 M1)))"

text \<open>
  A two-state instance in the real basis without lasers, in a magnetic field whose
  \<open>z\<close> component is the sum of the entries of the argument of \<open>Field\<close>
  (\<^verbatim>\<open>lambda R: np.array([0., 0., np.sum(R)])\<close>).
\<close>

fun ex_field :: "pyarg \<Rightarrow> nat \<Rightarrow> complex" where
  "ex_field (PyScalar x) q = (if q = 2 then x else 0)"
| "ex_field (PyVector v) q = (if q = 2 then sum_list v else 0)"

definition ex_Bz :: cmat where
  "ex_Bz = (\<lambda>a b. if a = 1 \<and> b = 2 then 1 else 0)"

definition ex_obe_B :: obe where
  "ex_obe_B = ex_obe\<lparr> magField := ex_field,
     ev_mat := ex_ev_mats\<lparr> ev_B := (\<lambda>q. if q = 2 then ex_Bz else zeros_mat) \<rparr> \<rparr>"

definition ex_unit2 :: cvec where
  "ex_unit2 = (\<lambda>a. if a = 2 then 1 else 0)"

lemma lessThan_4: "{..<4::nat} = {0, 1, 2, 3}"
  by auto

text \<open>
  C7: the matrix of \<open>full_OBE_ev(r, t)\<close> times \<open>\<rho>\<close> should be \<open>drhodt(r, t, \<rho>)\<close>, both
  evaluating the magnetic field at the position.  At \<open>r = (1, 0, 0)\<close>, \<open>t = 0\<close> the
  right-hand side sees the field \<open>B\<^sub>z = 1\<close> of the position, while \<open>full_OBE_ev\<close> passes
  \<open>(r, t)\<close> to \<open>return_magnetic_field(t, r)\<close>, evaluates the field model at the time and
  sees \<open>B\<^sub>z = 0\<close>: entry \<open>1\<close> of the two results is \<open>0\<close> against \<open>1\<close>.
\<close>

theorem C7_full_OBE_ev_field_at_time:
  "\<not> isl (full_OBE_ev ex_obe_B [1, 0, 0] 0)
   \<and> \<not> isl (drhodt ex_obe_B [1, 0, 0] 0 ex_unit2)
   \<and> matvec 4 (projr (full_OBE_ev ex_obe_B [1, 0, 0] 0)) ex_unit2 1 = 0
   \<and> projr (drhodt ex_obe_B [1, 0, 0] 0 ex_unit2) 1 = 1"
proof -
  have f: "full_OBE_ev ex_obe_B [1, 0, 0] 0 = Inr (mat_add zeros_mat zeros_mat)"
    by (simp add: full_OBE_ev_def ex_obe_B_def ex_obe_def ex_ev_mats_def range3_def
          full_OBE_ev_B_body_def return_magnetic_field_def field_threshold_def)
  have d: "drhodt ex_obe_B [1, 0, 0] 0 ex_unit2 =
             Inr (vec_add (vec_add (matvec 4 zeros_mat ex_unit2) (matvec 4 zeros_mat ex_unit2))
                    (vec_scale 1 (matvec 4 ex_Bz ex_unit2)))"
    by (simp add: drhodt_def ex_obe_B_def ex_obe_def ex_ev_mats_def range3_def
          drhodt_B_body_def return_magnetic_field_def field_threshold_def)
  show ?thesis
    unfolding f d
    by (simp add: matvec_def lessThan_4 ex_unit2_def vec_add_def vec_scale_def mat_add_def
          zeros_mat_def ex_Bz_def)
qed

section \<open>The equilibrium-force iteration\<close>

text \<open>
  Force averages are floating-point values that may be infinite or NaN: the previous
  average starts as \<open>[inf, inf, inf]\<close>.  Finite values are exact reals; the special values
  follow IEEE 754 as numpy applies it (division by zero gives a warning and \<open>\<plusminus>inf\<close> or
  \<open>nan\<close>, every comparison with \<open>nan\<close> is false).
\<close>

datatype xreal = Fin real | PInf | NInf | XNaN

fun xneg :: "xreal \<Rightarrow> xreal" where
  "xneg (Fin a) = Fin (- a)"
| "xneg PInf = NInf"
| "xneg NInf = PInf"
| "xneg XNaN = XNaN"

fun xadd :: "xreal \<Rightarrow> xreal \<Rightarrow> xreal" where
  "xadd XNaN _ = XNaN"
| "xadd _ XNaN = XNaN"
| "xadd (Fin a) (Fin b) = Fin (a + b)"
| "xadd PInf NInf = XNaN"
| "xadd NInf PInf = XNaN"
| "xadd PInf _ = PInf"
| "xadd _ PInf = PInf"
| "xadd NInf _ = NInf"
| "xadd _ NInf = NInf"

definition xsub :: "xreal \<Rightarrow> xreal \<Rightarrow> xreal" where
  "xsub a b = xadd a (xneg b)"

fun xsq :: "xreal \<Rightarrow> xreal" where
  "xsq (Fin a) = Fin (a * a)"
| "xsq PInf = PInf"
| "xsq NInf = PInf"
| "xsq XNaN = XNaN"

fun xdiv :: "xreal \<Rightarrow> xreal \<Rightarrow> xreal" where
  "xdiv XNaN _ = XNaN"
| "xdiv _ XNaN = XNaN"
| "xdiv (Fin a) (Fin b) =
     (if b \<noteq> 0 then Fin (a / b)
      else if a = 0 then XNaN else if 0 < a then PInf else NInf)"
| "xdiv (Fin a) _ = Fin 0"
| "xdiv PInf (Fin b) = (if 0 \<le> b then PInf else NInf)"
| "xdiv NInf (Fin b) = (if 0 \<le> b then NInf else PInf)"
| "xdiv _ _ = XNaN"

fun xless :: "xreal \<Rightarrow> xreal \<Rightarrow> bool" where
  "xless XNaN _ = False"
| "xless _ XNaN = False"
| "xless (Fin a) (Fin b) = (a < b)"
| "xless (Fin a) PInf = True"
| "xless (Fin a) NInf = False"
| "xless PInf _ = False"
| "xless NInf NInf = False"
| "xless NInf _ = True"

text \<open>\<open>np.sum\<close> and \<open>np.mean\<close> over one axis of floats.\<close>

definition xsum :: "xreal list \<Rightarrow> xreal" where
  "xsum xs = fold (\<lambda>x acc. xadd acc x) xs (Fin 0)"

definition np_mean :: "xreal list \<Rightarrow> xreal" where
  "np_mean xs = xdiv (xsum xs) (Fin (real (length xs)))"

text \<open>Arrays with a leading axis of length three, as \<open>np.zeros((3, \<dots>))\<close> makes them.\<close>

type_synonym 'a tri = "'a \<times> 'a \<times> 'a"

fun tri_map :: "('a \<Rightarrow> 'b) \<Rightarrow> 'a tri \<Rightarrow> 'b tri" where
  "tri_map g (a, b, c) = (g a, g b, g c)"

fun tri_list :: "'a tri \<Rightarrow> 'a list" where
  "tri_list (a, b, c) = [a, b, c]"

fun tri_zip :: "'a tri \<Rightarrow> 'b tri \<Rightarrow> ('a \<times> 'b) tri" where
  "tri_zip (a, b, c) (a', b', c') = ((a, a'), (b, b'), (c, c'))"

text \<open>
  What \<open>force_from_sol(return_q=True)\<close> returns: \<open>f\<close> of shape \<open>(3, T)\<close>, and per laser key
  \<open>f_laser\<close> of shape \<open>(3, beams, T)\<close> and \<open>f_laser_q\<close> of shape \<open>(3, 3, beams, T)\<close>.
\<close>

record forces =
  f_total :: "xreal list tri"
  f_laser :: "(string \<times> xreal list list tri) list"
  f_laser_q :: "(string \<times> xreal list list tri tri) list"

record force_averages =
  f_avg :: "xreal tri"
  f_laser_avg :: "(string \<times> xreal list tri) list"
  f_laser_avg_q :: "(string \<times> xreal list tri tri) list"

text \<open>The keyword arguments of \<open>find_equilibrium_force\<close> (with \<open>debug\<close> left at \<open>False\<close>).\<close>

record fef_kwargs =
  deltat :: real
  itermax :: int
  Npts :: "int option"
  rel :: xreal
  abs_tol :: xreal
  t_eval :: "real list option"

text \<open>\<open>np.linspace(start, stop, num)\<close>.\<close>

definition np_linspace :: "real \<Rightarrow> real \<Rightarrow> int \<Rightarrow> py_error + real list" where
  "np_linspace a b num =
     (if num < 0 then Inl ValueError
      else if num = 1 then Inr [a]
      else Inr (map (\<lambda>k. a + real k * ((b - a) / real_of_int (num - 1))) [0..<nat num]))"

text \<open>
  The integrator \<open>solve_ivp\<close> is an external collaborator: it is a parameter, called
  with the derivative function, the time span, the initial vector and \<open>t_eval\<close>.
\<close>

type_synonym ivp_solver =
  "(real \<Rightarrow> complex list \<Rightarrow> py_error + complex list) \<Rightarrow> real \<times> real \<Rightarrow> elem list
     \<Rightarrow> real list option \<Rightarrow> py_error + solution"

definition vec_of_list :: "complex list \<Rightarrow> cvec" where
  "vec_of_list xs = (\<lambda>a. if a < length xs then xs ! a else 0)"

text \<open>
  \<open>obe.evolve_density\<close>: the derivative of the combined vector \<open>[rho, v, r]\<close> is
  \<open>drhodt(y[-3:], t, y[:-6])\<close>, zero acceleration, and \<open>y[-6:-3]\<close>.
\<close>

definition evolve_dydt :: "obe \<Rightarrow> real \<Rightarrow> complex list \<Rightarrow> py_error + complex list" where
  "evolve_dydt s t y =
     (case drhodt s (drop (length y - 3) y) t (vec_of_list (take (length y - 6) y)) of
        Inl e \<Rightarrow> Inl e
      | Inr d \<Rightarrow> Inr (map d [0..<ham_n s * ham_n s] @ [0, 0, 0]
                       @ take 3 (drop (length y - 6) y)))"

definition evolve_density ::
  "ivp_solver \<Rightarrow> obe \<Rightarrow> real \<times> real \<Rightarrow> real list option \<Rightarrow> py_error + obe" where
  "evolve_density solve_ivp s t_span te =
     (case solve_ivp (evolve_dydt s) t_span
             (arr_data (rho0 s) @ arr_data (v0 s) @ arr_data (r0 s)) te of
        Inl e \<Rightarrow> Inl e
      | Inr so \<Rightarrow> Inr (s\<lparr> sol := Some so \<rparr>))"

text \<open>The slices \<open>self.sol.y[:-6, -1]\<close>, \<open>self.sol.y[-3:, -1]\<close> and \<open>self.sol.y[-6:-3, -1]\<close>.\<close>

definition sol_last_column :: "obe \<Rightarrow> py_error + dtype \<times> elem list" where
  "sol_last_column s =
     (case sol s of
        None \<Rightarrow> Inl AttributeError
      | Some so \<Rightarrow> if sol_y so = [] then Inl IndexError
                   else Inr (sol_dtype so, last (sol_y so)))"

definition final_rho :: "dtype \<times> elem list \<Rightarrow> ndarray" where
  "final_rho c = \<lparr> arr_dtype = fst c, arr_data = take (length (snd c) - 6) (snd c) \<rparr>"

definition final_r :: "dtype \<times> elem list \<Rightarrow> ndarray" where
  "final_r c = \<lparr> arr_dtype = fst c, arr_data = drop (length (snd c) - 3) (snd c) \<rparr>"

definition final_v :: "dtype \<times> elem list \<Rightarrow> ndarray" where
  "final_v c = \<lparr> arr_dtype = fst c, arr_data = take 3 (drop (length (snd c) - 6) (snd c)) \<rparr>"

text \<open>
  The convergence test
  \<^verbatim>\<open>np.sum((old_f_avg-f_avg)**2)/np.sum((f_avg)**2)<rel or np.sum((old_f_avg-f_avg)**2)<abs\<close>.
\<close>

definition force_change :: "xreal tri \<Rightarrow> xreal tri \<Rightarrow> xreal" where
  "force_change old new =
     xsum (tri_list (tri_map (\<lambda>p. xsq (xsub (fst p) (snd p))) (tri_zip old new)))"

definition converged :: "xreal tri \<Rightarrow> xreal tri \<Rightarrow> xreal \<Rightarrow> xreal \<Rightarrow> bool" where
  "converged old new rl ab =
     (xless (xdiv (force_change old new) (xsum (tri_list (tri_map xsq new)))) rl
      \<or> xless (force_change old new) ab)"

text \<open>
  The state of the \<open>while\<close> loop: the instance, the counter \<open>ii\<close>, \<open>old_f_avg\<close>, the current
  \<open>kwargs['t_eval']\<close>, and the locals \<open>f_avg, f_laser, f_laser_q\<close>, unbound until the body
  has run once.
\<close>

definition window_t_eval ::
  "fef_kwargs \<Rightarrow> int \<Rightarrow> real list option \<Rightarrow> py_error + real list option" where
  "window_t_eval kw ii te =
     (case Npts kw of
        None \<Rightarrow> Inr te
      | Some np \<Rightarrow>
          (case np_linspace (real_of_int ii * deltat kw) (real_of_int (ii + 1) * deltat kw) np of
             Inl e \<Rightarrow> Inl e
           | Inr ts \<Rightarrow> Inr (Some ts)))"

record fef_state =
  fs_obe :: obe
  fs_ii :: int
  fs_old :: "xreal tri"
  fs_t_eval :: "real list option"
  fs_locals :: "(xreal tri \<times> forces) option"

function fef_loop ::
  "ivp_solver \<Rightarrow> (obe \<Rightarrow> py_error + forces) \<Rightarrow> fef_kwargs \<Rightarrow> fef_state \<Rightarrow> py_error + fef_state"
where
  "fef_loop solve_ivp force_from_sol kw st =
     (if fs_ii st < itermax kw then
        (case window_t_eval kw (fs_ii st) (fs_t_eval st) of
           Inl e \<Rightarrow> Inl e
         | Inr te \<Rightarrow>
        (case evolve_density solve_ivp (fs_obe st)
                (real_of_int (fs_ii st) * deltat kw, real_of_int (fs_ii st + 1) * deltat kw) te of
           Inl e \<Rightarrow> Inl e
         | Inr s1 \<Rightarrow>
        (case force_from_sol s1 of
           Inl e \<Rightarrow> Inl e
         | Inr F \<Rightarrow>
        (let favg = tri_map np_mean (f_total F) in
         if converged (fs_old st) favg (rel kw) (abs_tol kw) then
           Inr (st\<lparr> fs_obe := s1, fs_t_eval := te, fs_locals := Some (favg, F) \<rparr>)
         else
           (case sol_last_column s1 of
              Inl e \<Rightarrow> Inl e
            | Inr c1 \<Rightarrow>
           (case set_initial_rho s1 (final_rho c1) of
              Inl e \<Rightarrow> Inl e
            | Inr s2 \<Rightarrow>
           (case sol_last_column s2 of
              Inl e \<Rightarrow> Inl e
            | Inr c2 \<Rightarrow>
              fef_loop solve_ivp force_from_sol kw
                \<lparr> fs_obe = set_initial_position_and_velocity s2 (final_r c2) (final_v c2),
                  fs_ii = fs_ii st + 1, fs_old = favg, fs_t_eval = te,
                  fs_locals = Some (favg, F) \<rparr>)))))))
      else Inr st)"
  by pat_completeness auto
termination
  by (relation "measure (\<lambda>(solve_ivp, force_from_sol, kw, st). nat (itermax kw - fs_ii st))") auto


text \<open>
  \<open>obe.find_equilibrium_force\<close>: the loop from \<open>ii = 0\<close> and \<open>old_f_avg = [inf, inf, inf]\<close>,
  then the averages over the time axis of the last window.
\<close>

definition laser_averages ::
  "forces \<Rightarrow> py_error + (string \<times> xreal list tri) list \<times> (string \<times> xreal list tri tri) list"
where
  "laser_averages F =
     efold (\<lambda>kv acc.
              case map_of (f_laser_q F) (fst kv) of
                None \<Rightarrow> Inl KeyError
              | Some q \<Rightarrow>
                  Inr (fst acc @ [(fst kv, tri_map (map np_mean) (snd kv))],
                       snd acc @ [(fst kv, tri_map (tri_map (map np_mean)) q)]))
       (f_laser F) ([], [])"

definition find_equilibrium_force ::
  "ivp_solver \<Rightarrow> (obe \<Rightarrow> py_error + forces) \<Rightarrow> fef_kwargs \<Rightarrow> obe
     \<Rightarrow> py_error + obe \<times> force_averages \<times> int"
where
  "find_equilibrium_force solve_ivp force_from_sol kw s =
     (case fef_loop solve_ivp force_from_sol kw
             \<lparr> fs_obe = s, fs_ii = 0, fs_old = (PInf, PInf, PInf),
               fs_t_eval = t_eval kw, fs_locals = None \<rparr> of
        Inl e \<Rightarrow> Inl e
      | Inr st \<Rightarrow>
          (case fs_locals st of
             None \<Rightarrow> Inl UnboundLocalError
           | Some loc \<Rightarrow>
               (case laser_averages (snd loc) of
                  Inl e \<Rightarrow> Inl e
                | Inr avs \<Rightarrow>
                    Inr (fs_obe st,
                         \<lparr> f_avg = fst loc, f_laser_avg = fst avs, f_laser_avg_q = snd avs \<rparr>,
                         fs_ii st))))"

definition inf_or_nan :: "xreal \<Rightarrow> bool" where
  "inf_or_nan x = (x = PInf \<or> x = XNaN)"

fun not_negative :: "xreal \<Rightarrow> bool" where
  "not_negative (Fin a) = (0 \<le> a)"
| "not_negative PInf = True"
| "not_negative NInf = False"
| "not_negative XNaN = True"

lemma xsq_xsub_PInf: "inf_or_nan (xsq (xsub PInf x))"
  by (cases x) (simp_all add: xsub_def inf_or_nan_def)

lemma xadd_inf_or_nan:
  "inf_or_nan y \<Longrightarrow> inf_or_nan x \<or> x = Fin a \<Longrightarrow> inf_or_nan (xadd x y)"
  by (cases x; cases y) (simp_all add: inf_or_nan_def)

lemma xsum3: "xsum [p, q, r] = xadd (xadd (xadd (Fin 0) p) q) r"
  by (simp add: xsum_def)

lemma force_change_first: "inf_or_nan (force_change (PInf, PInf, PInf) new)"
proof -
  obtain a b c where new: "new = (a, b, c)" by (cases new) auto
  have 1: "inf_or_nan (xadd (Fin 0) (xsq (xsub PInf a)))"
    by (rule xadd_inf_or_nan[OF xsq_xsub_PInf, where a = 0]) simp
  have 2: "inf_or_nan (xadd (xadd (Fin 0) (xsq (xsub PInf a))) (xsq (xsub PInf b)))"
    by (rule xadd_inf_or_nan[OF xsq_xsub_PInf]) (simp add: 1)
  have "inf_or_nan (xadd (xadd (xadd (Fin 0) (xsq (xsub PInf a))) (xsq (xsub PInf b)))
          (xsq (xsub PInf c)))"
    by (rule xadd_inf_or_nan[OF xsq_xsub_PInf]) (simp add: 2)
  then show ?thesis by (simp add: force_change_def new xsum3)
qed

lemma not_negative_xsq: "not_negative (xsq x)"
  by (cases x) simp_all

lemma not_negative_xadd: "not_negative x \<Longrightarrow> not_negative y \<Longrightarrow> not_negative (xadd x y)"
  by (cases x; cases y) simp_all

lemma not_negative_squares: "not_negative (xsum (tri_list (tri_map xsq new)))"
proof -
  obtain a b c where new: "new = (a, b, c)" by (cases new) auto
  show ?thesis
    by (simp add: new xsum3 not_negative_xadd not_negative_xsq)
qed

lemma xdiv_inf_or_nan: "inf_or_nan x \<Longrightarrow> not_negative d \<Longrightarrow> inf_or_nan (xdiv x d)"
  by (cases x; cases d) (simp_all add: inf_or_nan_def)

lemma xless_inf_or_nan: "inf_or_nan x \<Longrightarrow> \<not> xless x y"
  by (cases x; cases y) (simp_all add: inf_or_nan_def)

lemma not_converged_first: "\<not> converged (PInf, PInf, PInf) new rl ab"
  unfolding converged_def
  using xless_inf_or_nan[OF xdiv_inf_or_nan[OF force_change_first not_negative_squares]]
        xless_inf_or_nan[OF force_change_first]
  by blast


lemma set_initial_rho_sol:
  "set_initial_rho s rho = Inr s' \<Longrightarrow> sol s' = sol s"
  by (auto simp add: set_initial_rho_def split: if_splits)

lemma sol_last_column_cong: "sol s' = sol s \<Longrightarrow> sol_last_column s' = sol_last_column s"
  by (simp add: sol_last_column_def)

lemma fef_loop_exhausted:
  "\<not> fs_ii st < itermax kw \<Longrightarrow> fef_loop solve_ivp force_from_sol kw st = Inr st"
  by (subst fef_loop.simps) simp

lemma fef_loop_first_window:
  assumes it: "0 < itermax kw"
    and te: "window_t_eval kw 0 (t_eval kw) = Inr te"
    and ev: "evolve_density solve_ivp s (0, deltat kw) te = Inr s1"
    and ff: "force_from_sol s1 = Inr F"
    and col: "sol_last_column s1 = Inr c"
    and rho: "set_initial_rho s1 (final_rho c) = Inr s2"
  shows "fef_loop solve_ivp force_from_sol kw
           \<lparr> fs_obe = s, fs_ii = 0, fs_old = (PInf, PInf, PInf),
             fs_t_eval = t_eval kw, fs_locals = None \<rparr> =
         fef_loop solve_ivp force_from_sol kw
           \<lparr> fs_obe = set_initial_position_and_velocity s2 (final_r c) (final_v c),
             fs_ii = 1, fs_old = tri_map np_mean (f_total F), fs_t_eval = te,
             fs_locals = Some (tri_map np_mean (f_total F), F) \<rparr>"
proof -
  have col2: "sol_last_column s2 = Inr c"
    using sol_last_column_cong[OF set_initial_rho_sol[OF rho]] col by simp
  show ?thesis
    by (subst fef_loop.simps)
       (simp add: it te ev ff col rho col2 not_converged_first Let_def)
qed


lemma set_initial_rho_valid:
  assumes "\<not> np_any_isnan rho" "\<not> np_any_isinf rho"
  shows "\<exists>s'. set_initial_rho s rho = Inr s'"
  using assms by (simp add: set_initial_rho_def)

text \<open>An integrator and a force evaluation for a run of one window.\<close>

definition ex_solve_ivp :: ivp_solver where
  "ex_solve_ivp = (\<lambda>dydt t_span y0 te. Inr ex_solution)"

definition ex_forces :: forces where
  "ex_forces = \<lparr> f_total = ([Fin 1], [Fin 0], [Fin 0]), f_laser = [], f_laser_q = [] \<rparr>"

definition ex_force_from_sol :: "obe \<Rightarrow> py_error + forces" where
  "ex_force_from_sol = (\<lambda>s. Inr ex_forces)"

definition ex_kwargs :: fef_kwargs where
  "ex_kwargs = \<lparr> deltat = 500, itermax = 1, Npts = Some 3,
                  rel = Fin (1 / 10 ^ 5), abs_tol = Fin (1 / 10 ^ 9), t_eval = None \<rparr>"

text \<open>
  C10: on an instance whose first integration window completes (the integrator returns a
  trajectory with at least one sample and finite final density entries, and the force
  evaluation on it returns), \<open>find_equilibrium_force\<close> with \<open>itermax = 1\<close> returns the
  iteration count \<open>1\<close> together with the time-averaged force of that window, and does not
  raise.  The first convergence test compares with \<open>[inf, inf, inf]\<close> and fails for every
  pair of thresholds.
\<close>

theorem C10_itermax_one:
  assumes it: "itermax kw = 1"
    and te: "window_t_eval kw 0 (t_eval kw) = Inr te"
    and ev: "evolve_density solve_ivp s (0, deltat kw) te = Inr s1"
    and ff: "force_from_sol s1 = Inr F"
    and av: "laser_averages F = Inr avs"
    and col: "sol_last_column s1 = Inr c"
    and fin: "\<not> np_any_isnan (final_rho c)" "\<not> np_any_isinf (final_rho c)"
  shows "\<exists>s'. find_equilibrium_force solve_ivp force_from_sol kw s =
           Inr (s', \<lparr> f_avg = tri_map np_mean (f_total F),
                      f_laser_avg = fst avs, f_laser_avg_q = snd avs \<rparr>, 1)"
proof -
  obtain s2 where rho: "set_initial_rho s1 (final_rho c) = Inr s2"
    using set_initial_rho_valid[OF fin] by blast
  have it0: "0 < itermax kw" using it by simp
  let ?st1 = "\<lparr> fs_obe = set_initial_position_and_velocity s2 (final_r c) (final_v c),
                fs_ii = 1, fs_old = tri_map np_mean (f_total F), fs_t_eval = te,
                fs_locals = Some (tri_map np_mean (f_total F), F) \<rparr>"
  have "fef_loop solve_ivp force_from_sol kw ?st1 = Inr ?st1"
    by (rule fef_loop_exhausted) (simp add: it)
  with fef_loop_first_window[where force_from_sol = force_from_sol, OF it0 te ev ff col rho]
  have "fef_loop solve_ivp force_from_sol kw
          \<lparr> fs_obe = s, fs_ii = 0, fs_old = (PInf, PInf, PInf),
            fs_t_eval = t_eval kw, fs_locals = None \<rparr> = Inr ?st1"
    by simp
  then show ?thesis
    by (simp add: find_equilibrium_force_def av)
qed

theorem C10_itermax_one_witness:
  "itermax ex_kwargs = 1
   \<and> (\<exists>s'. find_equilibrium_force ex_solve_ivp ex_force_from_sol ex_kwargs ex_obe =
          Inr (s', \<lparr> f_avg = (Fin 1, Fin 0, Fin 0), f_laser_avg = [], f_laser_avg_q = [] \<rparr>, 1))"
proof -
  let ?c = "(Float64, [Finite 1, Finite 0, Finite 0, Finite 0,
               Finite 0, Finite 0, Finite 0, Finite 0, Finite 0, Finite 0])"
  have it: "itermax ex_kwargs = 1" by (simp add: ex_kwargs_def)
  have te: "window_t_eval ex_kwargs 0 (t_eval ex_kwargs) = Inr (Some [0, 250, 500])"
    by (simp add: window_t_eval_def ex_kwargs_def np_linspace_def upt_rec)
  have ev: "evolve_density ex_solve_ivp ex_obe (0, deltat ex_kwargs) (Some [0, 250, 500]) =
              Inr (ex_obe\<lparr> sol := Some ex_solution \<rparr>)"
    by (simp add: evolve_density_def ex_solve_ivp_def)
  have ff: "ex_force_from_sol (ex_obe\<lparr> sol := Some ex_solution \<rparr>) = Inr ex_forces"
    by (simp add: ex_force_from_sol_def)
  have av: "laser_averages ex_forces = Inr ([], [])"
    by (simp add: laser_averages_def ex_forces_def)
  have col: "sol_last_column (ex_obe\<lparr> sol := Some ex_solution \<rparr>) = Inr ?c"
    by (simp add: sol_last_column_def ex_solution_def)
  have fin: "\<not> np_any_isnan (final_rho ?c)" "\<not> np_any_isinf (final_rho ?c)"
    by (simp_all add: final_rho_def np_any_isnan_def np_any_isinf_def)
  have m: "tri_map np_mean (f_total ex_forces) = (Fin 1, Fin 0, Fin 0)"
    by (simp add: ex_forces_def np_mean_def xsum_def)
  from C10_itermax_one[where force_from_sol = ex_force_from_sol, OF it te ev ff av col fin] it m
  show ?thesis by simp
qed

section \<open>The block Hamiltonian (hamiltonian.py)\<close>

text \<open>
  Arrays handed to the registration methods carry their shape.  A two-dimensional array
  is its shape and its entries; a three-dimensional one likewise, the first axis being
  the spherical component.
\<close>

record mat2 =
  nrows :: nat
  ncols :: nat
  ent :: "nat \<Rightarrow> nat \<Rightarrow> complex"

record mat3 =
  dim0 :: nat
  dim1 :: nat
  dim2 :: nat
  ent3 :: "nat \<Rightarrow> nat \<Rightarrow> nat \<Rightarrow> complex"

text \<open>\<open>M[q]\<close>, \<open>np.conjugate(M.T)\<close>, and their combination over the first three components.\<close>

definition comp3 :: "mat3 \<Rightarrow> nat \<Rightarrow> mat2" where
  "comp3 D q = \<lparr> nrows = dim1 D, ncols = dim2 D, ent = ent3 D q \<rparr>"

definition conjT :: "mat2 \<Rightarrow> mat2" where
  "conjT M = \<lparr> nrows = ncols M, ncols = nrows M, ent = (\<lambda>i j. cnj (ent M j i)) \<rparr>"

text \<open>\<^verbatim>\<open>np.array([np.conjugate(d_q[ii].T) for ii in range(3)])\<close>: needs three components.\<close>

definition dagger3 :: "mat3 \<Rightarrow> py_error + mat3" where
  "dagger3 D =
     (if dim0 D < 3 then Inl IndexError
      else Inr \<lparr> dim0 = 3, dim1 = dim2 D, dim2 = dim1 D,
                 ent3 = (\<lambda>q i j. cnj (ent3 D q j i)) \<rparr>)"

text \<open>\<^verbatim>\<open>np.einsum("ijk->ikj", d_q.conj())\<close>: every component, conjugated and transposed.\<close>

definition einsum_swap_conj :: "mat3 \<Rightarrow> mat3" where
  "einsum_swap_conj D =
     \<lparr> dim0 = dim0 D, dim1 = dim2 D, dim2 = dim1 D, ent3 = (\<lambda>q i j. cnj (ent3 D q j i)) \<rparr>"

text \<open>
  The classes \<open>block\<close> and \<open>vector_block\<close>.  An instance of either is a \<open>block\<close>
  (\<open>isinstance(x, self.block)\<close> holds for both); the payload tells them apart.
\<close>

datatype blockdata = Scalar mat2 | Vector mat3

record block =
  blk_label :: string
  blk_diagonal :: bool
  blk_matrix :: blockdata
  blk_parameters :: "string \<rightharpoonup> real"
  blk_n :: nat
  blk_m :: nat

text \<open>\<open>block.check_diagonality\<close>: square and no nonzero entry off the diagonal.\<close>

definition check_diagonality :: "mat2 \<Rightarrow> bool" where
  "check_diagonality M =
     (if nrows M = ncols M
      then list_all (\<lambda>i. list_all (\<lambda>j. i = j \<or> ent M i j = 0) [0..<ncols M]) [0..<nrows M]
      else False)"

definition new_block :: "string \<Rightarrow> mat2 \<Rightarrow> block" where
  "new_block l M =
     \<lparr> blk_label = l, blk_diagonal = check_diagonality M, blk_matrix = Scalar M,
       blk_parameters = Map.empty, blk_n = nrows M, blk_m = ncols M \<rparr>"

text \<open>
  \<open>vector_block.__init__\<close>: the diagonality check reads the component \<open>M[1]\<close> when the
  trailing shape is square.
\<close>

definition new_vector_block :: "string \<Rightarrow> mat3 \<Rightarrow> py_error + block" where
  "new_vector_block l D =
     (if dim1 D = dim2 D \<and> dim0 D < 2 then Inl IndexError
      else Inr \<lparr> blk_label = l,
                 blk_diagonal = (if dim1 D = dim2 D then check_diagonality (comp3 D 1) else False),
                 blk_matrix = Vector D, blk_parameters = Map.empty,
                 blk_n = dim1 D, blk_m = dim2 D \<rparr>)"

text \<open>
  A cell of the object array \<open>self.blocks\<close>: \<open>None\<close>, a block, or a tuple of two cells
  (the energy block and the magnetic block of one manifold).
\<close>

datatype cell = CNone | CBlock block | CTuple cell cell

text \<open>
  The assembled matrices that \<open>make_full_matrices\<close> stores on the instance
  (\<open>H_0\<close>, \<open>mu_q\<close>, \<open>d_q_bare\<close>, \<open>d_q_star\<close>, \<open>d_q\<close>), of sizes \<open>n \<times> n\<close> and \<open>3 \<times> n \<times> n\<close>.
\<close>

record full_matrices =
  fm_H_0 :: cmat
  fm_mu_q :: "nat \<Rightarrow> cmat"
  fm_d_q_bare :: "(string \<times> (nat \<Rightarrow> cmat)) list"
  fm_d_q_star :: "(string \<times> (nat \<Rightarrow> cmat)) list"
  fm_d_q :: "nat \<Rightarrow> cmat"

text \<open>
  The instance: \<open>blocks\<close> is a square object array of side \<open>nblocks\<close> (the empty list at
  first), cells outside it are \<open>None\<close>.  \<open>h_n\<close> and \<open>h_full\<close> are attributes that exist only
  once they have been assigned.
\<close>

record hamiltonian =
  nblocks :: nat
  blocks :: "nat \<Rightarrow> nat \<Rightarrow> cell"
  state_labels :: "string list"
  ns :: "nat list"
  laser_keys :: "string \<rightharpoonup> nat \<times> nat"
  mass :: real
  h_n :: "nat option"
  h_diagonal :: "bool list"
  h_full :: "full_matrices option"

definition empty_hamiltonian :: "real \<Rightarrow> hamiltonian" where
  "empty_hamiltonian ms =
     \<lparr> nblocks = 0, blocks = (\<lambda>i j. CNone), state_labels = [], ns = [], laser_keys = Map.empty,
       mass = ms, h_n = None, h_diagonal = [], h_full = None \<rparr>"

text \<open>\<open>__make_elem_label\<close>: \<^verbatim>\<open>'<%s|%s|%s>' % (state_label, type, state_label)\<close>.\<close>

definition make_elem_label :: "string \<Rightarrow> string \<Rightarrow> string \<Rightarrow> string" where
  "make_elem_label l1 ty l2 = ''<'' @ l1 @ ''|'' @ ty @ ''|'' @ l2 @ ''>''"

text \<open>
  \<open>__search_elem_label\<close>: every row is scanned up to its first match (\<open>break\<close> leaves
  the inner loop only), and a later row overrides an earlier one.  A tuple is asked for
  the label of each of its members.
\<close>

fun cell_label :: "cell \<Rightarrow> py_error + string" where
  "cell_label (CBlock b) = Inr (blk_label b)"
| "cell_label _ = Inl AttributeError"

fun elem_matches :: "cell \<Rightarrow> string \<Rightarrow> py_error + bool" where
  "elem_matches (CBlock b) l = Inr (blk_label b = l)"
| "elem_matches (CTuple x y) l =
     (case cell_label x of Inl e \<Rightarrow> Inl e | Inr lx \<Rightarrow>
      (case cell_label y of Inl e \<Rightarrow> Inl e | Inr ly \<Rightarrow> Inr (lx = l \<or> ly = l)))"
| "elem_matches CNone l = Inr False"

fun scan_row :: "(nat \<Rightarrow> cell) \<Rightarrow> string \<Rightarrow> nat list \<Rightarrow> py_error + nat option" where
  "scan_row row l [] = Inr None"
| "scan_row row l (jj # js) =
     (case elem_matches (row jj) l of
        Inl e \<Rightarrow> Inl e
      | Inr found \<Rightarrow> if found then Inr (Some jj) else scan_row row l js)"

fun search_rows ::
  "hamiltonian \<Rightarrow> string \<Rightarrow> nat list \<Rightarrow> (nat \<times> nat) option \<Rightarrow> py_error + (nat \<times> nat) option"
where
  "search_rows h l [] ind = Inr ind"
| "search_rows h l (ii # rows) ind =
     (case scan_row (blocks h ii) l [0..<nblocks h] of
        Inl e \<Rightarrow> Inl e
      | Inr None \<Rightarrow> search_rows h l rows ind
      | Inr (Some jj) \<Rightarrow> search_rows h l rows (Some (ii, jj)))"

definition search_elem_label :: "hamiltonian \<Rightarrow> string \<Rightarrow> py_error + (nat \<times> nat) option" where
  "search_elem_label h l = search_rows h l [0..<nblocks h] None"

text \<open>\<open>__add_new_row_and_column\<close>: the old cells are kept, the new ones are \<open>None\<close>.\<close>

definition add_new_row_and_column :: "hamiltonian \<Rightarrow> hamiltonian" where
  "add_new_row_and_column h =
     h\<lparr> nblocks := nblocks h + 1,
        blocks := (\<lambda>i j. if i < nblocks h \<and> j < nblocks h then blocks h i j else CNone) \<rparr>"

definition set_cell :: "hamiltonian \<Rightarrow> nat \<times> nat \<Rightarrow> cell \<Rightarrow> hamiltonian" where
  "set_cell h ind c = h\<lparr> blocks := (blocks h)(fst ind := (blocks h (fst ind))(snd ind := c)) \<rparr>"

text \<open>
  \<open>__recompute_number_of_states\<close> and
  \<open>__check_diagonal_submatrices_are_themselves_diagonal\<close>, over \<open>np.diag(self.blocks)\<close>.
\<close>

fun cell_n :: "cell \<Rightarrow> py_error + nat" where
  "cell_n (CBlock b) = Inr (blk_n b)"
| "cell_n _ = Inl AttributeError"

fun diag_cell_n :: "cell \<Rightarrow> py_error + nat" where
  "diag_cell_n (CTuple x y) = cell_n x"
| "diag_cell_n c = cell_n c"

fun cell_diagonal :: "cell \<Rightarrow> py_error + bool" where
  "cell_diagonal (CBlock b) = Inr (blk_diagonal b)"
| "cell_diagonal _ = Inl AttributeError"

fun diag_cell_diagonal :: "cell \<Rightarrow> py_error + bool" where
  "diag_cell_diagonal (CTuple x y) =
     (case cell_diagonal x of
        Inl e \<Rightarrow> Inl e
      | Inr dx \<Rightarrow> if dx then cell_diagonal y else Inr False)"
| "diag_cell_diagonal c = cell_diagonal c"

definition recompute_number_of_states :: "hamiltonian \<Rightarrow> py_error + hamiltonian" where
  "recompute_number_of_states h =
     (case efold (\<lambda>i acc. case diag_cell_n (blocks h i i) of
                             Inl e \<Rightarrow> Inl e | Inr k \<Rightarrow> Inr (acc + k))
             [0..<nblocks h] 0 of
        Inl e \<Rightarrow> Inl e
      | Inr tot \<Rightarrow> Inr (h\<lparr> h_n := Some tot \<rparr>))"

definition check_diagonal_submatrices :: "hamiltonian \<Rightarrow> py_error + hamiltonian" where
  "check_diagonal_submatrices h =
     (case efold (\<lambda>i acc. case diag_cell_diagonal (blocks h i i) of
                             Inl e \<Rightarrow> Inl e | Inr d \<Rightarrow> Inr (acc @ [d]))
             [0..<nblocks h] [] of
        Inl e \<Rightarrow> Inl e
      | Inr ds \<Rightarrow> Inr (h\<lparr> h_diagonal := ds \<rparr>))"

definition finish_registration :: "hamiltonian \<Rightarrow> py_error + hamiltonian" where
  "finish_registration h =
     (case recompute_number_of_states h of
        Inl e \<Rightarrow> Inl e
      | Inr h' \<Rightarrow> check_diagonal_submatrices h')"

text \<open>
  \<open>self.blocks[ind].n\<close> for an index returned by the search.  With the empty tuple numpy
  returns the array itself, which has no attribute \<open>n\<close>; a tuple cell has none either.
\<close>

definition block_n_at :: "hamiltonian \<Rightarrow> (nat \<times> nat) option \<Rightarrow> py_error + nat" where
  "block_n_at h ind =
     (case ind of
        None \<Rightarrow> Inl AttributeError
      | Some ij \<Rightarrow> cell_n (blocks h (fst ij) (snd ij)))"

text \<open>\<open>hamiltonian.add_H_0_block\<close>.\<close>

definition add_H_0_block :: "string \<Rightarrow> mat2 \<Rightarrow> hamiltonian \<Rightarrow> py_error + hamiltonian" where
  "add_H_0_block state_label H_0 h =
     (if nrows H_0 \<noteq> ncols H_0 then Inl ValueError
      else
        (case search_elem_label h (make_elem_label state_label ''H_0'' state_label) of
           Inl e \<Rightarrow> Inl e
         | Inr ind_H_0 \<Rightarrow>
        (case search_elem_label h (make_elem_label state_label ''mu_q'' state_label) of
           Inl e \<Rightarrow> Inl e
         | Inr ind_mu_q \<Rightarrow>
        (let l = make_elem_label state_label ''H_0'' state_label in
         if ind_H_0 = None \<and> ind_mu_q = None then
           (let h1 = add_new_row_and_column h;
                h2 = set_cell h1 (nblocks h1 - 1, nblocks h1 - 1) (CBlock (new_block l H_0))
            in finish_registration
                 (h2\<lparr> state_labels := state_labels h2 @ [state_label],
                      ns := ns h2 @ [nrows H_0] \<rparr>))
         else
           (case ind_mu_q of
              Some ij \<Rightarrow>
                (case block_n_at h ind_H_0 of
                   Inl e \<Rightarrow> Inl e
                 | Inr k \<Rightarrow>
                     if nrows H_0 \<noteq> k then Inl ValueError
                     else finish_registration
                            (set_cell h ij
                               (CTuple (CBlock (new_block l H_0)) (blocks h (fst ij) (snd ij)))))
            | None \<Rightarrow> Inl ValueError)))))"

text \<open>\<open>hamiltonian.add_mu_q_block\<close>.\<close>

definition add_mu_q_block ::
  "string \<Rightarrow> mat3 \<Rightarrow> real \<Rightarrow> hamiltonian \<Rightarrow> py_error + hamiltonian" where
  "add_mu_q_block state_label mu_q muB h =
     (if dim0 mu_q \<noteq> 3 \<or> dim1 mu_q \<noteq> dim2 mu_q then Inl ValueError
      else
        (case search_elem_label h (make_elem_label state_label ''H_0'' state_label) of
           Inl e \<Rightarrow> Inl e
         | Inr ind_H_0 \<Rightarrow>
        (case search_elem_label h (make_elem_label state_label ''mu_q'' state_label) of
           Inl e \<Rightarrow> Inl e
         | Inr ind_mu_q \<Rightarrow>
        (case new_vector_block (make_elem_label state_label ''mu_q'' state_label) mu_q of
           Inl e \<Rightarrow> Inl e
         | Inr vb \<Rightarrow>
        (let nb = vb\<lparr> blk_parameters := (blk_parameters vb)(''mu_B'' \<mapsto> muB) \<rparr> in
         if ind_H_0 = None \<and> ind_mu_q = None then
           (let h1 = add_new_row_and_column h;
                h2 = set_cell h1 (nblocks h1 - 1, nblocks h1 - 1) (CBlock nb)
            in finish_registration
                 (h2\<lparr> state_labels := state_labels h2 @ [state_label],
                      ns := ns h2 @ [dim1 mu_q] \<rparr>))
         else
           (case ind_H_0 of
              Some ij \<Rightarrow>
                (case block_n_at h ind_H_0 of
                   Inl e \<Rightarrow> Inl e
                 | Inr k \<Rightarrow>
                     if dim1 mu_q \<noteq> k then Inl ValueError
                     else finish_registration
                            (set_cell h ij (CTuple (blocks h (fst ij) (snd ij)) (CBlock nb))))
            | None \<Rightarrow> Inl ValueError))))))"


text \<open>
  \<open>hamiltonian.add_d_q_block\<close>.  First the ordinal and the dimension of a manifold, from
  the two searches for its label; \<open>self.blocks[ind][0].n\<close> subscripts the cell.
\<close>

fun first_member_n :: "cell \<Rightarrow> py_error + nat" where
  "first_member_n (CTuple x y) = cell_n x"
| "first_member_n _ = Inl TypeError"

definition find_manifold :: "hamiltonian \<Rightarrow> string \<Rightarrow> py_error + nat \<times> nat" where
  "find_manifold h l =
     (case search_elem_label h (make_elem_label l ''H_0'' l) of
        Inl e \<Rightarrow> Inl e
      | Inr ind_H_0 \<Rightarrow>
     (case search_elem_label h (make_elem_label l ''mu_q'' l) of
        Inl e \<Rightarrow> Inl e
      | Inr ind_mu_q \<Rightarrow>
     (case (ind_H_0, ind_mu_q) of
        (None, None) \<Rightarrow> Inl ValueError
      | (None, Some ij) \<Rightarrow>
          (case cell_n (blocks h (fst ij) (snd ij)) of
             Inl e \<Rightarrow> Inl e | Inr k \<Rightarrow> Inr (fst ij, k))
      | (Some ij, None) \<Rightarrow>
          (case cell_n (blocks h (fst ij) (snd ij)) of
             Inl e \<Rightarrow> Inl e | Inr k \<Rightarrow> Inr (fst ij, k))
      | (Some ij, Some _) \<Rightarrow>
          (case first_member_n (blocks h (fst ij) (snd ij)) of
             Inl e \<Rightarrow> Inl e | Inr k \<Rightarrow> Inr (fst ij, k)))))"

definition add_d_q_block ::
  "string \<Rightarrow> string \<Rightarrow> mat3 \<Rightarrow> real \<Rightarrow> real \<Rightarrow> hamiltonian \<Rightarrow> py_error + hamiltonian" where
  "add_d_q_block label1 label2 d_q k gamma h =
     (case find_manifold h label1 of
        Inl e \<Rightarrow> Inl e
      | Inr (ind1, n) \<Rightarrow>
     (case find_manifold h label2 of
        Inl e \<Rightarrow> Inl e
      | Inr (ind2, m) \<Rightarrow>
     (if dim1 d_q \<noteq> n \<or> dim2 d_q \<noteq> m then Inl UnboundLocalError
      else
        (let l1 = (if ind1 > ind2 then label2 else label1);
             l2 = (if ind1 > ind2 then label1 else label2);
             ind = (if ind1 > ind2 then (ind2, ind1) else (ind1, ind2));
             d = (if ind1 > ind2 then einsum_swap_conj d_q else d_q)
         in
         (case new_vector_block (make_elem_label l1 ''d_q'' l2) d of
            Inl e \<Rightarrow> Inl e
          | Inr vb \<Rightarrow>
         (case dagger3 d of
            Inl e \<Rightarrow> Inl e
          | Inr dd \<Rightarrow>
         (case new_vector_block (make_elem_label l2 ''d_q'' l1) dd of
            Inl e \<Rightarrow> Inl e
          | Inr vb' \<Rightarrow>
              Inr ((set_cell
                      (set_cell h ind
                         (CBlock (vb\<lparr> blk_parameters :=
                                    (blk_parameters vb)(''k'' \<mapsto> k, ''gamma'' \<mapsto> gamma) \<rparr>)))
                      (snd ind, fst ind) (CBlock vb'))
                     \<lparr> laser_keys := (laser_keys h)(l1 @ ''->'' @ l2 \<mapsto> ind) \<rparr>))))))))"

text \<open>A magnetic block and an energy block for a manifold of one state.\<close>

definition ex_mu1 :: mat3 where
  "ex_mu1 = \<lparr> dim0 = 3, dim1 = 1, dim2 = 1, ent3 = (\<lambda>q i j. 0) \<rparr>"

definition ex_H1 :: mat2 where
  "ex_H1 = \<lparr> nrows = 1, ncols = 1, ent = (\<lambda>i j. 0) \<rparr>"

section \<open>Sequences of registration calls\<close>

datatype call =
    AddH0 string mat2
  | AddMu string mat3 real
  | AddDq string string mat3 real real

fun apply_call :: "call \<Rightarrow> hamiltonian \<Rightarrow> py_error + hamiltonian" where
  "apply_call (AddH0 l H) h = add_H_0_block l H h"
| "apply_call (AddMu l mu muB) h = add_mu_q_block l mu muB h"
| "apply_call (AddDq l1 l2 d k gamma) h = add_d_q_block l1 l2 d k gamma h"

text \<open>A sequence of calls, each of which returns; the first exception ends the run.\<close>

definition run_calls :: "call list \<Rightarrow> hamiltonian \<Rightarrow> py_error + hamiltonian" where
  "run_calls cs h = efold apply_call cs h"

text \<open>Manifold labels that cannot be confused with the separators of an element label.\<close>

definition bar_free :: "string \<Rightarrow> bool" where
  "bar_free l = (CHR ''|'' \<notin> set l)"

fun call_labels_bar_free :: "call \<Rightarrow> bool" where
  "call_labels_bar_free (AddH0 l H) = bar_free l"
| "call_labels_bar_free (AddMu l mu muB) = bar_free l"
| "call_labels_bar_free (AddDq l1 l2 d k gamma) = (bar_free l1 \<and> bar_free l2)"

text \<open>
  The relation between the two cells of a transposed pair of positions: both empty, or
  both vector blocks carrying dipole labels, each of the three components of one being
  the conjugate transpose of the same component of the other.
\<close>

definition dq_labelled :: "block \<Rightarrow> bool" where
  "dq_labelled b =
     (\<exists>l1 l2. bar_free l1 \<and> bar_free l2 \<and> blk_label b = make_elem_label l1 ''d_q'' l2)"

definition dagger_pair :: "cell \<Rightarrow> cell \<Rightarrow> bool" where
  "dagger_pair c c' =
     ((c = CNone \<and> c' = CNone) \<or>
      (\<exists>b b' D D'. c = CBlock b \<and> c' = CBlock b'
         \<and> blk_matrix b = Vector D \<and> blk_matrix b' = Vector D'
         \<and> dq_labelled b \<and> dq_labelled b'
         \<and> (\<forall>q<3. comp3 D' q = conjT (comp3 D q))))"

definition dq_invariant :: "hamiltonian \<Rightarrow> bool" where
  "dq_invariant h =
     ((\<forall>i j. i \<noteq> j \<longrightarrow> dagger_pair (blocks h i j) (blocks h j i))
      \<and> (\<forall>key i j. laser_keys h key = Some (i, j) \<longrightarrow> i \<le> j))"

lemma conjT_conjT: "conjT (conjT M) = M"
  by (simp add: conjT_def)

lemma dagger_pair_sym:
  assumes "dagger_pair c c'"
  shows "dagger_pair c' c"
proof -
  consider (none) "c = CNone" "c' = CNone"
    | (pair) b b' D D' where "c = CBlock b" "c' = CBlock b'"
        "blk_matrix b = Vector D" "blk_matrix b' = Vector D'"
        "dq_labelled b" "dq_labelled b'" "\<forall>q<3. comp3 D' q = conjT (comp3 D q)"
    using assms unfolding dagger_pair_def by blast
  then show ?thesis
  proof cases
    case none
    then show ?thesis by (simp add: dagger_pair_def)
  next
    case pair
    have "\<forall>q<3. comp3 D q = conjT (comp3 D' q)"
      using pair(7) by (simp add: conjT_conjT)
    with pair show ?thesis
      unfolding dagger_pair_def by blast
  qed
qed

lemma split_at_first:
  assumes "c \<notin> set xs" "c \<notin> set ys" "xs @ c # r = ys @ c # r'"
  shows "xs = ys \<and> r = r'"
  using assms
proof (induction xs arbitrary: ys)
  case Nil
  then show ?case by (cases ys) auto
next
  case (Cons x xs)
  then show ?case by (cases ys) auto
qed

lemma bar_label_ne:
  assumes "bar_free s" "bar_free a"
  shows "make_elem_label s ''H_0'' s \<noteq> make_elem_label a ''d_q'' b"
    and "make_elem_label s ''mu_q'' s \<noteq> make_elem_label a ''d_q'' b"
proof -
  have s: "CHR ''|'' \<notin> set s" and a: "CHR ''|'' \<notin> set a"
    using assms by (simp_all add: bar_free_def)
  show "make_elem_label s ''H_0'' s \<noteq> make_elem_label a ''d_q'' b"
  proof
    assume "make_elem_label s ''H_0'' s = make_elem_label a ''d_q'' b"
    then have "s @ CHR ''|'' # (''H_0|'' @ s @ ''>'') = a @ CHR ''|'' # (''d_q|'' @ b @ ''>'')"
      by (simp add: make_elem_label_def)
    from split_at_first[OF s a this] show False by simp
  qed
  show "make_elem_label s ''mu_q'' s \<noteq> make_elem_label a ''d_q'' b"
  proof
    assume "make_elem_label s ''mu_q'' s = make_elem_label a ''d_q'' b"
    then have "s @ CHR ''|'' # (''mu_q|'' @ s @ ''>'') = a @ CHR ''|'' # (''d_q|'' @ b @ ''>'')"
      by (simp add: make_elem_label_def)
    from split_at_first[OF s a this] show False by simp
  qed
qed

lemma scan_row_found:
  "scan_row row l js = Inr (Some jj) \<Longrightarrow> jj \<in> set js \<and> elem_matches (row jj) l = Inr True"
  by (induction js) (auto split: sum.splits if_splits)

lemma search_rows_found:
  "search_rows h l rows ind0 = Inr (Some (i, j)) \<Longrightarrow>
     ind0 = Some (i, j) \<or> (i \<in> set rows \<and> j < nblocks h \<and> elem_matches (blocks h i j) l = Inr True)"
proof (induction rows arbitrary: ind0)
  case Nil
  then show ?case by simp
next
  case (Cons ii rows)
  show ?case
  proof (cases "scan_row (blocks h ii) l [0..<nblocks h]")
    case (Inl e)
    then show ?thesis using Cons.prems by simp
  next
    case (Inr r)
    show ?thesis
    proof (cases r)
      case None
      then show ?thesis using Cons.IH[of ind0] Cons.prems Inr by auto
    next
      case (Some jj)
      then have "search_rows h l rows (Some (ii, jj)) = Inr (Some (i, j))"
        using Cons.prems Inr by simp
      from Cons.IH[OF this] scan_row_found[of "blocks h ii" l "[0..<nblocks h]" jj] Inr Some
      show ?thesis by auto
    qed
  qed
qed

lemma search_elem_label_found:
  assumes "search_elem_label h l = Inr (Some (i, j))"
  shows "i < nblocks h \<and> j < nblocks h \<and> elem_matches (blocks h i j) l = Inr True"
  using search_rows_found[of h l "[0..<nblocks h]" None i j] assms
  by (simp add: search_elem_label_def)

lemma search_diagonal:
  assumes inv: "dq_invariant h" and s: "bar_free s"
    and l: "l = make_elem_label s ''H_0'' s \<or> l = make_elem_label s ''mu_q'' s"
    and found: "search_elem_label h l = Inr (Some (i, j))"
  shows "i = j"
proof (rule ccontr)
  assume ne: "i \<noteq> j"
  have m: "elem_matches (blocks h i j) l = Inr True"
    using search_elem_label_found[OF found] by simp
  have "dagger_pair (blocks h i j) (blocks h j i)"
    using inv ne by (simp add: dq_invariant_def)
  then consider (none) "blocks h i j = CNone"
    | (blk) b where "blocks h i j = CBlock b" "dq_labelled b"
    unfolding dagger_pair_def by blast
  then show False
  proof cases
    case none
    then show False using m by simp
  next
    case blk
    then obtain a1 a2 where a: "bar_free a1" "blk_label b = make_elem_label a1 ''d_q'' a2"
      unfolding dq_labelled_def by blast
    have "blk_label b = l" using m blk(1) by simp
    then show False using l a(2) bar_label_ne[OF s a(1), of a2] by auto
  qed
qed


lemma blocks_set_cell:
  "blocks (set_cell h (a, b) c) i j = (if i = a \<and> j = b then c else blocks h i j)"
  by (simp add: set_cell_def)

lemma laser_keys_set_cell: "laser_keys (set_cell h ind c) = laser_keys h"
  by (simp add: set_cell_def)

lemma nblocks_set_cell: "nblocks (set_cell h ind c) = nblocks h"
  by (simp add: set_cell_def)

lemma finish_registration_frame:
  assumes "finish_registration h = Inr h'"
  shows "blocks h' = blocks h \<and> laser_keys h' = laser_keys h \<and> nblocks h' = nblocks h"
  using assms
  by (auto simp add: finish_registration_def recompute_number_of_states_def
        check_diagonal_submatrices_def split: sum.splits)

lemma dq_invariant_cong:
  assumes "blocks h' = blocks h" "laser_keys h' = laser_keys h"
  shows "dq_invariant h' = dq_invariant h"
  using assms by (simp add: dq_invariant_def)

lemma dq_invariant_finish:
  assumes "finish_registration h = Inr h'" "dq_invariant h"
  shows "dq_invariant h'"
  using finish_registration_frame[OF assms(1)] assms(2) dq_invariant_cong[of h' h] by simp

lemma dq_invariant_set_diag:
  assumes "dq_invariant h"
  shows "dq_invariant (set_cell h (a, a) c)"
  using assms
  by (simp add: dq_invariant_def blocks_set_cell laser_keys_set_cell)

lemma dq_invariant_add_row:
  assumes "dq_invariant h"
  shows "dq_invariant (add_new_row_and_column h)"
proof -
  have "dagger_pair CNone CNone" by (simp add: dagger_pair_def)
  then show ?thesis
    using assms by (simp add: dq_invariant_def add_new_row_and_column_def)
qed

lemma dq_invariant_labels:
  assumes "dq_invariant h"
  shows "dq_invariant (h\<lparr> state_labels := sl, ns := k \<rparr>)"
  using assms by (simp add: dq_invariant_def)

lemma dq_invariant_set_pair:
  assumes inv: "dq_invariant h" and ab: "a < b" and p: "dagger_pair c c'"
  shows "dq_invariant ((set_cell (set_cell h (a, b) c) (b, a) c')
                         \<lparr> laser_keys := (laser_keys h)(key \<mapsto> (a, b)) \<rparr>)"
proof -
  have p': "dagger_pair c' c" by (rule dagger_pair_sym[OF p])
  show ?thesis
    using inv ab p p'
    by (auto simp add: dq_invariant_def blocks_set_cell)
qed

lemma dq_invariant_set_same:
  assumes inv: "dq_invariant h"
  shows "dq_invariant ((set_cell (set_cell h (a, a) c) (a, a) c')
                         \<lparr> laser_keys := (laser_keys h)(key \<mapsto> (a, a)) \<rparr>)"
  using inv by (auto simp add: dq_invariant_def blocks_set_cell)

lemma dq_invariant_empty: "dq_invariant (empty_hamiltonian ms)"
  by (simp add: dq_invariant_def empty_hamiltonian_def dagger_pair_def)


lemma add_H_0_block_invariant:
  assumes inv: "dq_invariant h" and l: "bar_free l"
    and ok: "add_H_0_block l H h = Inr h'"
  shows "dq_invariant h'"
proof -
  let ?lH = "make_elem_label l ''H_0'' l" and ?lM = "make_elem_label l ''mu_q'' l"
  from ok obtain iH iM where
    sH: "search_elem_label h ?lH = Inr iH" and sM: "search_elem_label h ?lM = Inr iM"
    by (auto simp add: add_H_0_block_def split: if_splits sum.splits)
  show ?thesis
  proof (cases "iH = None \<and> iM = None")
    case True
    let ?h1 = "add_new_row_and_column h"
    let ?h2 = "set_cell ?h1 (nblocks ?h1 - 1, nblocks ?h1 - 1) (CBlock (new_block ?lH H))"
    have fin: "finish_registration
                 (?h2\<lparr> state_labels := state_labels ?h2 @ [l], ns := ns ?h2 @ [nrows H] \<rparr>) = Inr h'"
      using ok sH sM True by (simp add: add_H_0_block_def Let_def split: if_splits)
    have "dq_invariant ?h2"
      by (intro dq_invariant_set_diag dq_invariant_add_row inv)
    then show ?thesis
      using dq_invariant_finish[OF fin] dq_invariant_labels by blast
  next
    case False
    then obtain i j where iM: "iM = Some (i, j)"
      using ok sH sM by (cases iM) (auto simp add: add_H_0_block_def Let_def split: if_splits)
    have ij: "i = j"
      using search_diagonal[OF inv l _ sM[unfolded iM]] by simp
    have fin: "finish_registration
                 (set_cell h (i, i) (CTuple (CBlock (new_block ?lH H)) (blocks h i i))) = Inr h'"
      using ok sH sM False iM ij
      by (simp add: add_H_0_block_def Let_def split: if_splits sum.splits)
    show ?thesis
      by (rule dq_invariant_finish[OF fin]) (rule dq_invariant_set_diag[OF inv])
  qed
qed

lemma add_mu_q_block_invariant:
  assumes inv: "dq_invariant h" and l: "bar_free l"
    and ok: "add_mu_q_block l mu muB h = Inr h'"
  shows "dq_invariant h'"
proof -
  let ?lH = "make_elem_label l ''H_0'' l" and ?lM = "make_elem_label l ''mu_q'' l"
  from ok obtain iH iM vb where
    sH: "search_elem_label h ?lH = Inr iH" and sM: "search_elem_label h ?lM = Inr iM"
    and vb: "new_vector_block ?lM mu = Inr vb"
    by (auto simp add: add_mu_q_block_def split: if_splits sum.splits)
  let ?nb = "vb\<lparr> blk_parameters := (blk_parameters vb)(''mu_B'' \<mapsto> muB) \<rparr>"
  show ?thesis
  proof (cases "iH = None \<and> iM = None")
    case True
    let ?h1 = "add_new_row_and_column h"
    let ?h2 = "set_cell ?h1 (nblocks ?h1 - 1, nblocks ?h1 - 1) (CBlock ?nb)"
    have fin: "finish_registration
                 (?h2\<lparr> state_labels := state_labels ?h2 @ [l], ns := ns ?h2 @ [dim1 mu] \<rparr>) = Inr h'"
      using ok sH sM vb True by (simp add: add_mu_q_block_def Let_def split: if_splits)
    have "dq_invariant ?h2"
      by (intro dq_invariant_set_diag dq_invariant_add_row inv)
    then show ?thesis
      using dq_invariant_finish[OF fin] dq_invariant_labels by blast
  next
    case False
    then obtain i j where iH: "iH = Some (i, j)"
      using ok sH sM vb by (cases iH) (auto simp add: add_mu_q_block_def Let_def split: if_splits)
    have ij: "i = j"
      using search_diagonal[OF inv l _ sH[unfolded iH]] by simp
    have fin: "finish_registration
                 (set_cell h (i, i) (CTuple (blocks h i i) (CBlock ?nb))) = Inr h'"
      using ok sH sM vb False iH ij
      by (simp add: add_mu_q_block_def Let_def split: if_splits sum.splits)
    show ?thesis
      by (rule dq_invariant_finish[OF fin]) (rule dq_invariant_set_diag[OF inv])
  qed
qed


lemma new_vector_block_fields:
  assumes "new_vector_block l D = Inr vb"
  shows "blk_label vb = l \<and> blk_matrix vb = Vector D \<and> blk_n vb = dim1 D \<and> blk_m vb = dim2 D"
  using assms by (auto simp add: new_vector_block_def split: if_splits)

lemma dagger3_components:
  assumes "dagger3 D = Inr dd"
  shows "comp3 dd q = conjT (comp3 D q)"
  using assms by (auto simp add: dagger3_def comp3_def conjT_def split: if_splits)

text \<open>What a returning call of \<open>add_d_q_block\<close> has done, in terms of the two ordinals found.\<close>

lemma add_d_q_block_result:
  assumes ok: "add_d_q_block l1 l2 d k g h = Inr h'"
  obtains ind1 n ind2 m vb dd vb' where
    "find_manifold h l1 = Inr (ind1, n)" "find_manifold h l2 = Inr (ind2, m)"
    "new_vector_block
       (make_elem_label (if ind1 > ind2 then l2 else l1) ''d_q'' (if ind1 > ind2 then l1 else l2))
       (if ind1 > ind2 then einsum_swap_conj d else d) = Inr vb"
    "dagger3 (if ind1 > ind2 then einsum_swap_conj d else d) = Inr dd"
    "new_vector_block
       (make_elem_label (if ind1 > ind2 then l1 else l2) ''d_q'' (if ind1 > ind2 then l2 else l1))
       dd = Inr vb'"
    "h' = (set_cell
             (set_cell h (if ind1 > ind2 then (ind2, ind1) else (ind1, ind2))
                (CBlock (vb\<lparr> blk_parameters :=
                                (blk_parameters vb)(''k'' \<mapsto> k, ''gamma'' \<mapsto> g) \<rparr>)))
             (if ind1 > ind2 then (ind1, ind2) else (ind2, ind1)) (CBlock vb'))
          \<lparr> laser_keys := (laser_keys h)
               ((if ind1 > ind2 then l2 else l1) @ ''->'' @ (if ind1 > ind2 then l1 else l2)
                  \<mapsto> (if ind1 > ind2 then (ind2, ind1) else (ind1, ind2))) \<rparr>"
proof -
  obtain ind1 n where f1: "find_manifold h l1 = Inr (ind1, n)"
  proof (cases "find_manifold h l1")
    case (Inl e)
    then show ?thesis using ok by (simp add: add_d_q_block_def)
  next
    case (Inr p)
    then show ?thesis using that by (cases p) simp
  qed
  obtain ind2 m where f2: "find_manifold h l2 = Inr (ind2, m)"
  proof (cases "find_manifold h l2")
    case (Inl e)
    then show ?thesis using ok f1 by (simp add: add_d_q_block_def)
  next
    case (Inr p)
    then show ?thesis using that by (cases p) simp
  qed
  have dims: "\<not> (dim1 d \<noteq> n \<or> dim2 d \<noteq> m)"
  proof
    assume "dim1 d \<noteq> n \<or> dim2 d \<noteq> m"
    then have "add_d_q_block l1 l2 d k g h = Inl UnboundLocalError"
      by (simp add: add_d_q_block_def f1 f2)
    then show False using ok by simp
  qed
  define la where "la = (if ind1 > ind2 then l2 else l1)"
  define lb where "lb = (if ind1 > ind2 then l1 else l2)"
  define ind where "ind = (if ind1 > ind2 then (ind2, ind1) else (ind1, ind2))"
  define D where "D = (if ind1 > ind2 then einsum_swap_conj d else d)"
  have unf: "add_d_q_block l1 l2 d k g h =
     (case new_vector_block (make_elem_label la ''d_q'' lb) D of
        Inl e \<Rightarrow> Inl e
      | Inr vb \<Rightarrow>
         (case dagger3 D of
            Inl e \<Rightarrow> Inl e
          | Inr dd \<Rightarrow>
          (case new_vector_block (make_elem_label lb ''d_q'' la) dd of
             Inl e \<Rightarrow> Inl e
           | Inr vb' \<Rightarrow>
               Inr ((set_cell
                       (set_cell h ind
                          (CBlock (vb\<lparr> blk_parameters :=
                                     (blk_parameters vb)(''k'' \<mapsto> k, ''gamma'' \<mapsto> g) \<rparr>)))
                       (snd ind, fst ind) (CBlock vb'))
                      \<lparr> laser_keys := (laser_keys h)(la @ ''->'' @ lb \<mapsto> ind) \<rparr>))))"
    unfolding add_d_q_block_def f1 f2 la_def lb_def ind_def D_def Let_def
    using dims by simp
  obtain vb where vb: "new_vector_block (make_elem_label la ''d_q'' lb) D = Inr vb"
    using ok unfolding unf by (cases "new_vector_block (make_elem_label la ''d_q'' lb) D") simp_all
  obtain dd where dd: "dagger3 D = Inr dd"
    using ok unfolding unf vb by (cases "dagger3 D") simp_all
  obtain vb' where vb': "new_vector_block (make_elem_label lb ''d_q'' la) dd = Inr vb'"
    using ok unfolding unf vb dd
    by (cases "new_vector_block (make_elem_label lb ''d_q'' la) dd") simp_all
  have h': "h' = (set_cell
                   (set_cell h ind
                      (CBlock (vb\<lparr> blk_parameters :=
                                 (blk_parameters vb)(''k'' \<mapsto> k, ''gamma'' \<mapsto> g) \<rparr>)))
                   (snd ind, fst ind) (CBlock vb'))
                  \<lparr> laser_keys := (laser_keys h)(la @ ''->'' @ lb \<mapsto> ind) \<rparr>"
    using ok by (simp add: unf vb dd vb')
  have sw: "(snd ind, fst ind) = (if ind1 > ind2 then (ind1, ind2) else (ind2, ind1))"
    by (simp add: ind_def)
  show ?thesis
    by (rule that[OF f1 f2 vb[unfolded la_def lb_def D_def] dd[unfolded D_def]
          vb'[unfolded la_def lb_def] h'[unfolded sw, unfolded la_def lb_def ind_def]])
qed

lemma add_d_q_block_invariant:
  assumes inv: "dq_invariant h" and l: "bar_free l1" "bar_free l2"
    and ok: "add_d_q_block l1 l2 d k g h = Inr h'"
  shows "dq_invariant h'"
proof (rule add_d_q_block_result[OF ok])
  fix ind1 n ind2 m vb dd vb'
  assume "find_manifold h l1 = Inr (ind1, n)" "find_manifold h l2 = Inr (ind2, m)"
  assume vb: "new_vector_block
       (make_elem_label (if ind1 > ind2 then l2 else l1) ''d_q'' (if ind1 > ind2 then l1 else l2))
       (if ind1 > ind2 then einsum_swap_conj d else d) = Inr vb"
  assume dd: "dagger3 (if ind1 > ind2 then einsum_swap_conj d else d) = Inr dd"
  assume vb': "new_vector_block
       (make_elem_label (if ind1 > ind2 then l1 else l2) ''d_q'' (if ind1 > ind2 then l2 else l1))
       dd = Inr vb'"
  assume h': "h' = (set_cell
             (set_cell h (if ind1 > ind2 then (ind2, ind1) else (ind1, ind2))
                (CBlock (vb\<lparr> blk_parameters :=
                                (blk_parameters vb)(''k'' \<mapsto> k, ''gamma'' \<mapsto> g) \<rparr>)))
             (if ind1 > ind2 then (ind1, ind2) else (ind2, ind1)) (CBlock vb'))
          \<lparr> laser_keys := (laser_keys h)
               ((if ind1 > ind2 then l2 else l1) @ ''->'' @ (if ind1 > ind2 then l1 else l2)
                  \<mapsto> (if ind1 > ind2 then (ind2, ind1) else (ind1, ind2))) \<rparr>"
  let ?vbp = "vb\<lparr> blk_parameters := (blk_parameters vb)(''k'' \<mapsto> k, ''gamma'' \<mapsto> g) \<rparr>"
  let ?la = "if ind1 > ind2 then l2 else l1" and ?lb = "if ind1 > ind2 then l1 else l2"
  have la: "bar_free ?la" and lb: "bar_free ?lb" using l by simp_all
  have f: "blk_label vb = make_elem_label ?la ''d_q'' ?lb"
      "blk_matrix vb = Vector (if ind1 > ind2 then einsum_swap_conj d else d)"
    using new_vector_block_fields[OF vb] by simp_all
  have f': "blk_label vb' = make_elem_label ?lb ''d_q'' ?la" "blk_matrix vb' = Vector dd"
    using new_vector_block_fields[OF vb'] by simp_all
  have lab1: "dq_labelled ?vbp"
    unfolding dq_labelled_def using la lb f(1) by (intro exI[of _ ?la] exI[of _ ?lb]) simp
  have lab2: "dq_labelled vb'"
    unfolding dq_labelled_def using la lb f'(1) by (intro exI[of _ ?lb] exI[of _ ?la]) simp
  have comps: "\<forall>q<3. comp3 dd q = conjT (comp3 (if ind1 > ind2 then einsum_swap_conj d else d) q)"
    using dagger3_components[OF dd] by blast
  have pair: "dagger_pair (CBlock ?vbp) (CBlock vb')"
    unfolding dagger_pair_def
    apply (rule disjI2)
    apply (rule exI[of _ ?vbp], rule exI[of _ vb'])
    apply (rule exI[of _ "if ind1 > ind2 then einsum_swap_conj d else d"], rule exI[of _ dd])
    using f(2) f'(2) lab1 lab2 comps apply simp
    done
  consider (lt) "ind1 < ind2" | (eq) "ind1 = ind2" | (gt) "ind1 > ind2" by linarith
  then show "dq_invariant h'"
  proof cases
    case lt
    then show ?thesis
      unfolding h' using dq_invariant_set_pair[OF inv lt pair] by simp
  next
    case eq
    then show ?thesis
      unfolding h' using dq_invariant_set_same[OF inv] by simp
  next
    case gt
    then show ?thesis
      unfolding h' using dq_invariant_set_pair[OF inv gt pair] by simp
  qed
qed

lemma apply_call_invariant:
  assumes "dq_invariant h" "call_labels_bar_free c" "apply_call c h = Inr h'"
  shows "dq_invariant h'"
proof (cases c)
  case (AddH0 l H)
  then show ?thesis using assms add_H_0_block_invariant[of h l H h'] by simp
next
  case (AddMu l mu muB)
  then show ?thesis using assms add_mu_q_block_invariant[of h l mu muB h'] by simp
next
  case (AddDq l1 l2 d k g)
  then show ?thesis using assms add_d_q_block_invariant[of h l1 l2 d k g h'] by simp
qed

lemma run_calls_invariant:
  assumes "dq_invariant h" "list_all call_labels_bar_free cs" "run_calls cs h = Inr h'"
  shows "dq_invariant h'"
  using assms unfolding run_calls_def
proof (induction cs arbitrary: h)
  case Nil
  then show ?case by simp
next
  case (Cons c cs)
  obtain h1 where h1: "apply_call c h = Inr h1" and rest: "efold apply_call cs h1 = Inr h'"
    using Cons.prems(3) by (cases "apply_call c h") simp_all
  have "dq_invariant h1"
    using apply_call_invariant[OF Cons.prems(1) _ h1] Cons.prems(2) by simp
  then show ?case using Cons.IH[OF _ _ rest] Cons.prems(2) by simp
qed

fun is_block :: "cell \<Rightarrow> bool" where
  "is_block (CBlock b) = True"
| "is_block _ = False"

definition ex_d1 :: mat3 where
  "ex_d1 = \<lparr> dim0 = 3, dim1 = 1, dim2 = 1, ent3 = (\<lambda>q i j. 1) \<rparr>"

definition ex_colliding_calls :: "call list" where
  "ex_colliding_calls =
     [AddH0 ''p'' ex_H1,
      AddH0 ''p|H_0|p|d_q|p'' ex_H1,
      AddDq ''p'' ''p|H_0|p|d_q|p'' ex_d1 1 1,
      AddMu ''p|d_q|p'' ex_mu1 1]"

definition ex_two_level_calls :: "call list" where
  "ex_two_level_calls =
     [AddH0 ''g'' ex_H1, AddH0 ''e'' ex_H1, AddMu ''g'' ex_mu1 1, AddMu ''e'' ex_mu1 1,
      AddDq ''e'' ''g'' ex_d1 1 1]"

text \<open>
  C4 (as stated): after any sequence of registration calls the block at \<open>(j, i)\<close> would be
  the conjugate transpose of the block at \<open>(i, j)\<close>.  Manifold labels are arbitrary strings
  and cells are found by their formatted label: with the manifolds \<open>p\<close> and
  \<open>p|H_0|p|d_q|p\<close> the dipole block at \<open>(0, 1)\<close> carries the label \<open><p|d_q|p|H_0|p|d_q|p>\<close>,
  which is also the energy label of a manifold \<open>p|d_q|p\<close>; registering a magnetic block
  for that name replaces the cell \<open>(0, 1)\<close> by a tuple, while \<open>(1, 0)\<close> still holds the
  vector block.
\<close>

theorem C4_label_collision_counterexample:
  "\<not> isl (run_calls ex_colliding_calls (empty_hamiltonian 1))
   \<and> is_block (blocks (projr (run_calls ex_colliding_calls (empty_hamiltonian 1))) 1 0)
   \<and> \<not> is_block (blocks (projr (run_calls ex_colliding_calls (empty_hamiltonian 1))) 0 1)"
  by code_simp

text \<open>
  C4 (amended): after any sequence of registration calls that all return and whose manifold
  labels do not contain the character \<open>|\<close>, with \<open>add_d_q_block\<close> invoked with its labels
  in either order: for every two different positions \<open>i \<noteq> j\<close>, a non-empty cell \<open>(i, j)\<close>
  holds a vector block and so does \<open>(j, i)\<close>, each of the three spherical components of
  the latter being the conjugate transpose of the same component of the former; every
  laser key addresses a pair \<open>(i, j)\<close> with \<open>i \<le> j\<close>; and a further returning call
  \<open>add_d_q_block(label1, label2, d_q)\<close> between manifolds of different ordinals stores, at
  the position with the lower ordinal first, \<open>d_q\<close> itself when \<open>label1\<close> is the lower
  manifold and its conjugate transpose otherwise, under the key \<open>lower->higher\<close>.
\<close>

theorem C4_dipole_blocks_conjugate:
  assumes labels: "list_all call_labels_bar_free cs"
    and run: "run_calls cs (empty_hamiltonian ms) = Inr h"
  shows "(\<forall>i j. i \<noteq> j \<longrightarrow> blocks h i j \<noteq> CNone \<longrightarrow>
            (\<exists>b b' D D'. blocks h i j = CBlock b \<and> blocks h j i = CBlock b'
               \<and> blk_matrix b = Vector D \<and> blk_matrix b' = Vector D'
               \<and> (\<forall>q<3. comp3 D' q = conjT (comp3 D q))))
       \<and> (\<forall>key i j. laser_keys h key = Some (i, j) \<longrightarrow> i \<le> j)
       \<and> (\<forall>l1 l2 d k g h' i1 n i2 m.
             add_d_q_block l1 l2 d k g h = Inr h' \<longrightarrow>
             find_manifold h l1 = Inr (i1, n) \<longrightarrow> find_manifold h l2 = Inr (i2, m) \<longrightarrow>
             i1 \<noteq> i2 \<longrightarrow>
             (\<exists>b. blocks h' (min i1 i2) (max i1 i2) = CBlock b
                \<and> blk_matrix b = Vector (if i1 < i2 then d else einsum_swap_conj d)
                \<and> laser_keys h' ((if i1 < i2 then l1 else l2) @ ''->'' @ (if i1 < i2 then l2 else l1))
                    = Some (min i1 i2, max i1 i2)))"
proof (intro conjI allI impI)
  have inv: "dq_invariant h"
    by (rule run_calls_invariant[OF dq_invariant_empty labels run])
  {
    fix i j :: nat
    assume "i \<noteq> j" and ne: "blocks h i j \<noteq> CNone"
    then have "dagger_pair (blocks h i j) (blocks h j i)"
      using inv by (simp add: dq_invariant_def)
    then show "\<exists>b b' D D'. blocks h i j = CBlock b \<and> blocks h j i = CBlock b'
               \<and> blk_matrix b = Vector D \<and> blk_matrix b' = Vector D'
               \<and> (\<forall>q<3. comp3 D' q = conjT (comp3 D q))"
      unfolding dagger_pair_def using ne by blast
  }
  {
    fix key i j
    assume "laser_keys h key = Some (i, j)"
    then show "i \<le> j" using inv by (simp add: dq_invariant_def)
  }
  {
    fix l1 l2 d k g h' i1 n i2 m
    assume ok: "add_d_q_block l1 l2 d k g h = Inr h'"
      and f1: "find_manifold h l1 = Inr (i1, n)" and f2: "find_manifold h l2 = Inr (i2, m)"
      and ne: "i1 \<noteq> i2"
    show "\<exists>b. blocks h' (min i1 i2) (max i1 i2) = CBlock b
            \<and> blk_matrix b = Vector (if i1 < i2 then d else einsum_swap_conj d)
            \<and> laser_keys h' ((if i1 < i2 then l1 else l2) @ ''->'' @ (if i1 < i2 then l2 else l1))
                = Some (min i1 i2, max i1 i2)"
    proof (rule add_d_q_block_result[OF ok])
      fix ind1 n' ind2 m' vb dd vb'
      assume "find_manifold h l1 = Inr (ind1, n')" "find_manifold h l2 = Inr (ind2, m')"
      then have e: "ind1 = i1" "ind2 = i2" using f1 f2 by simp_all
      assume vb: "new_vector_block
         (make_elem_label (if ind1 > ind2 then l2 else l1) ''d_q'' (if ind1 > ind2 then l1 else l2))
         (if ind1 > ind2 then einsum_swap_conj d else d) = Inr vb"
      assume "dagger3 (if ind1 > ind2 then einsum_swap_conj d else d) = Inr dd"
        "new_vector_block
         (make_elem_label (if ind1 > ind2 then l1 else l2) ''d_q'' (if ind1 > ind2 then l2 else l1))
         dd = Inr vb'"
      assume h': "h' = (set_cell
             (set_cell h (if ind1 > ind2 then (ind2, ind1) else (ind1, ind2))
                (CBlock (vb\<lparr> blk_parameters :=
                                (blk_parameters vb)(''k'' \<mapsto> k, ''gamma'' \<mapsto> g) \<rparr>)))
             (if ind1 > ind2 then (ind1, ind2) else (ind2, ind1)) (CBlock vb'))
          \<lparr> laser_keys := (laser_keys h)
               ((if ind1 > ind2 then l2 else l1) @ ''->'' @ (if ind1 > ind2 then l1 else l2)
                  \<mapsto> (if ind1 > ind2 then (ind2, ind1) else (ind1, ind2))) \<rparr>"
      have m: "blk_matrix vb = Vector (if ind1 > ind2 then einsum_swap_conj d else d)"
        using new_vector_block_fields[OF vb] by simp
      show ?thesis
      proof (cases "i1 < i2")
        case True
        then show ?thesis
          using m ne unfolding h' e by (simp add: blocks_set_cell)
      next
        case False
        then have "i2 < i1" using ne by simp
        then show ?thesis
          using m ne unfolding h' e by (simp add: blocks_set_cell min_def max_def)
      qed
    qed
  }
qed

theorem C4_dipole_blocks_conjugate_witness:
  "list_all call_labels_bar_free ex_two_level_calls
   \<and> \<not> isl (run_calls ex_two_level_calls (empty_hamiltonian 1))
   \<and> (\<exists>b b' D D'.
         blocks (projr (run_calls ex_two_level_calls (empty_hamiltonian 1))) 1 0 = CBlock b
       \<and> blocks (projr (run_calls ex_two_level_calls (empty_hamiltonian 1))) 0 1 = CBlock b'
       \<and> blk_matrix b = Vector D \<and> blk_matrix b' = Vector D'
       \<and> (\<forall>q<3. comp3 D' q = conjT (comp3 D q)))"
proof -
  let ?r = "run_calls ex_two_level_calls (empty_hamiltonian 1)"
  have labels: "list_all call_labels_bar_free ex_two_level_calls"
    by (simp add: ex_two_level_calls_def bar_free_def)
  have ok: "\<not> isl ?r" by code_simp
  then have run: "?r = Inr (projr ?r)" by (cases ?r) simp_all
  have "is_block (blocks (projr ?r) 1 0)" by code_simp
  then have ne: "blocks (projr ?r) 1 0 \<noteq> CNone" by (cases "blocks (projr ?r) 1 0") simp_all
  have "(1::nat) \<noteq> 0" by simp
  with C4_dipole_blocks_conjugate[OF labels run] ne labels ok
  show ?thesis by blast
qed


text \<open>
  A manifold that has only a magnetic block: the search for its energy label finds
  nothing, the one for its magnetic label finds the placeholder.  \<open>add_H_0_block\<close> then
  reads \<open>self.blocks[ind_H_0].n\<close> with the empty index and raises, whatever the dimension.
\<close>

lemma add_H_0_block_placeholder:
  assumes "nrows H = ncols H"
    and "search_elem_label h (make_elem_label l ''H_0'' l) = Inr None"
    and "search_elem_label h (make_elem_label l ''mu_q'' l) = Inr (Some ij)"
  shows "add_H_0_block l H h = Inl AttributeError"
  using assms by (simp add: add_H_0_block_def block_n_at_def)

text \<open>
  C9: with only the magnetic block of \<open>g\<close> registered (one state), \<open>add_H_0_block\<close> with a
  square \<open>1 \<times> 1\<close> energy block of the matching dimension should attach it to the
  placeholder.  The call raises \<open>AttributeError\<close>.
\<close>

theorem C9_add_H_0_block_after_mu_q:
  "\<not> isl (add_mu_q_block ''g'' ex_mu1 1 (empty_hamiltonian 1))
   \<and> nrows ex_H1 = ncols ex_H1 \<and> nrows ex_H1 = dim1 ex_mu1
   \<and> isl (add_H_0_block ''g'' ex_H1 (projr (add_mu_q_block ''g'' ex_mu1 1 (empty_hamiltonian 1))))
   \<and> projl (add_H_0_block ''g'' ex_H1 (projr (add_mu_q_block ''g'' ex_mu1 1 (empty_hamiltonian 1))))
       = AttributeError"
  by code_simp

theorem C9_add_H_0_block_after_mu_q_witness:
  "isl (add_H_0_block ''g'' ex_H1 (projr (add_mu_q_block ''g'' ex_mu1 1 (empty_hamiltonian 1))))"
  using C9_add_H_0_block_after_mu_q by (rule conjunct2[THEN conjunct2, THEN conjunct2, THEN conjunct1])

section \<open>Assembling the full matrices and the instantaneous Hamiltonian\<close>

text \<open>
  \<open>block.return_block_in_place(i, j, N)\<close> and its override in \<open>vector_block\<close>: an array of
  zeros with the block written at offset \<open>(i, j)\<close>.  The slice assignment needs the block
  to fit (and three components for a vector block).
\<close>

definition place2 :: "mat2 \<Rightarrow> nat \<Rightarrow> nat \<Rightarrow> nat \<Rightarrow> py_error + cmat" where
  "place2 M i j N =
     (if i + nrows M \<le> N \<and> j + ncols M \<le> N
      then Inr (\<lambda>a b. if i \<le> a \<and> a < i + nrows M \<and> j \<le> b \<and> b < j + ncols M
                        then ent M (a - i) (b - j) else 0)
      else Inl ValueError)"

definition place3 :: "mat3 \<Rightarrow> nat \<Rightarrow> nat \<Rightarrow> nat \<Rightarrow> py_error + (nat \<Rightarrow> cmat)" where
  "place3 D i j N =
     (if dim0 D = 3 \<and> i + dim1 D \<le> N \<and> j + dim2 D \<le> N
      then Inr (\<lambda>q a b. if q < 3 \<and> i \<le> a \<and> a < i + dim1 D \<and> j \<le> b \<and> b < j + dim2 D
                          then ent3 D q (a - i) (b - j) else 0)
      else Inl ValueError)"

text \<open>
  The contribution of one energy block, and of one magnetic block scaled by its
  \<open>parameters['mu_B']\<close>.  The placement method is the one of the block's class.
\<close>

definition block_in_H_0 :: "block \<Rightarrow> nat \<Rightarrow> nat \<Rightarrow> py_error + cmat" where
  "block_in_H_0 b off N =
     (case blk_matrix b of
        Scalar M \<Rightarrow> place2 M off off N
      | Vector D \<Rightarrow> Inl ValueError)"

definition block_in_mu_q :: "block \<Rightarrow> nat \<Rightarrow> nat \<Rightarrow> py_error + (nat \<Rightarrow> cmat)" where
  "block_in_mu_q b off N =
     (case blk_parameters b ''mu_B'' of
        None \<Rightarrow> Inl KeyError
      | Some muB \<Rightarrow>
          (case blk_matrix b of
             Vector D \<Rightarrow>
               (case place3 D off off N of
                  Inl e \<Rightarrow> Inl e
                | Inr P \<Rightarrow> Inr (\<lambda>q. mat_scale (complex_of_real muB) (P q)))
           | Scalar M \<Rightarrow> Inl ValueError))"

text \<open>The state of the loop over \<open>np.diag(self.blocks)\<close>: \<open>H_0\<close>, \<open>mu_q\<close> and the offset.\<close>

record diag_acc =
  acc_H_0 :: cmat
  acc_mu_q :: "nat \<Rightarrow> cmat"
  acc_off :: nat

fun is_vector_block :: "block \<Rightarrow> bool" where
  "is_vector_block b = (case blk_matrix b of Vector D \<Rightarrow> True | Scalar M \<Rightarrow> False)"

fun tuple_member :: "cell \<Rightarrow> py_error + block" where
  "tuple_member (CBlock b) = Inr b"
| "tuple_member _ = Inl AttributeError"

definition add_H_0_part :: "block \<Rightarrow> nat \<Rightarrow> diag_acc \<Rightarrow> py_error + diag_acc" where
  "add_H_0_part b N acc =
     (case block_in_H_0 b (acc_off acc) N of
        Inl e \<Rightarrow> Inl e
      | Inr P \<Rightarrow> Inr (acc\<lparr> acc_H_0 := mat_add (acc_H_0 acc) P \<rparr>))"

definition add_mu_q_part :: "block \<Rightarrow> nat \<Rightarrow> diag_acc \<Rightarrow> py_error + diag_acc" where
  "add_mu_q_part b N acc =
     (case block_in_mu_q b (acc_off acc) N of
        Inl e \<Rightarrow> Inl e
      | Inr P \<Rightarrow> Inr (acc\<lparr> acc_mu_q := (\<lambda>q. mat_add (acc_mu_q acc q) (P q)) \<rparr>))"

fun diag_body :: "nat \<Rightarrow> cell \<Rightarrow> diag_acc \<Rightarrow> py_error + diag_acc" where
  "diag_body N (CBlock b) acc =
     (if is_vector_block b
      then (case add_mu_q_part b N acc of
              Inl e \<Rightarrow> Inl e
            | Inr acc' \<Rightarrow> Inr (acc'\<lparr> acc_off := acc_off acc + blk_n b \<rparr>))
      else (case add_H_0_part b N acc of
              Inl e \<Rightarrow> Inl e
            | Inr acc' \<Rightarrow> Inr (acc'\<lparr> acc_off := acc_off acc + blk_n b \<rparr>)))"
| "diag_body N (CTuple x y) acc =
     (case tuple_member x of
        Inl e \<Rightarrow> Inl e
      | Inr bx \<Rightarrow>
     (case add_H_0_part bx N acc of
        Inl e \<Rightarrow> Inl e
      | Inr acc1 \<Rightarrow>
     (case tuple_member y of
        Inl e \<Rightarrow> Inl e
      | Inr by \<Rightarrow>
     (case add_mu_q_part by N acc1 of
        Inl e \<Rightarrow> Inl e
      | Inr acc2 \<Rightarrow> Inr (acc2\<lparr> acc_off := acc_off acc + blk_n bx \<rparr>)))))"
| "diag_body N CNone acc = Inl TypeError"

text \<open>A dictionary in insertion order: assigning an existing key keeps its place.\<close>

fun dict_set :: "('k \<times> 'v) list \<Rightarrow> 'k \<Rightarrow> 'v \<Rightarrow> ('k \<times> 'v) list" where
  "dict_set [] k v = [(k, v)]"
| "dict_set ((k', v') # kvs) k v =
     (if k' = k then (k, v) # kvs else (k', v') # dict_set kvs k v)"

definition list_get :: "'a list \<Rightarrow> nat \<Rightarrow> py_error + 'a" where
  "list_get xs i = (if i < length xs then Inr (xs ! i) else Inl IndexError)"

text \<open>The loop nest over the cells above the diagonal that fills \<open>d_q_bare\<close>.\<close>

definition d_q_bare_body ::
  "hamiltonian \<Rightarrow> nat \<Rightarrow> nat \<Rightarrow> nat \<Rightarrow> (string \<times> (nat \<Rightarrow> cmat)) list
     \<Rightarrow> py_error + (string \<times> (nat \<Rightarrow> cmat)) list" where
  "d_q_bare_body h N ii jj dq =
     (case blocks h ii jj of
        CNone \<Rightarrow> Inr dq
      | CTuple x y \<Rightarrow>
          (case list_get (state_labels h) ii of Inl e \<Rightarrow> Inl e | Inr li \<Rightarrow>
           (case list_get (state_labels h) jj of Inl e \<Rightarrow> Inl e | Inr lj \<Rightarrow>
              Inl AttributeError))
      | CBlock b \<Rightarrow>
          (case list_get (state_labels h) ii of Inl e \<Rightarrow> Inl e | Inr li \<Rightarrow>
           (case list_get (state_labels h) jj of Inl e \<Rightarrow> Inl e | Inr lj \<Rightarrow>
            (case blk_matrix b of
               Scalar M \<Rightarrow> Inl ValueError
             | Vector D \<Rightarrow>
                 (case place3 D (sum_list (take ii (ns h))) (sum_list (take jj (ns h))) N of
                    Inl e \<Rightarrow> Inl e
                  | Inr P \<Rightarrow> Inr (dict_set dq (li @ ''->'' @ lj) P))))))"

text \<open>
  \<^verbatim>\<open>d_q_star[key][kk] = np.conjugate(d_q_bare[key][kk].T)\<close> for \<open>kk\<close> in \<open>range(3)\<close>, on an
  array of zeros.
\<close>

definition conj_transpose3 :: "(nat \<Rightarrow> cmat) \<Rightarrow> nat \<Rightarrow> cmat" where
  "conj_transpose3 P = (\<lambda>q a b. if q < 3 then cnj (P q b a) else 0)"

text \<open>
  \<open>hamiltonian.make_full_matrices\<close>.  It reads \<open>self.n\<close>, which exists once a block has
  been registered.  The Cartesian copies \<open>self.mu\<close> and \<open>self.d\<close>, made by \<open>spherical2cart\<close>
  of another module, are read by none of the methods modelled here and are left out.
  The loops over the keys of \<open>d_q_bare\<close> that fill \<open>d_q_star\<close> and \<open>d_q\<close> read
  \<open>d_q_star[key]\<close> right where it was computed from \<open>d_q_bare[key]\<close>.
\<close>

definition make_full_matrices :: "hamiltonian \<Rightarrow> py_error + hamiltonian" where
  "make_full_matrices h =
     (case h_n h of
        None \<Rightarrow> Inl AttributeError
      | Some N \<Rightarrow>
     (case efold (\<lambda>i acc. diag_body N (blocks h i i) acc) [0..<nblocks h]
             \<lparr> acc_H_0 = zeros_mat, acc_mu_q = (\<lambda>q. zeros_mat), acc_off = 0 \<rparr> of
        Inl e \<Rightarrow> Inl e
      | Inr acc \<Rightarrow>
     (case efold (\<lambda>ii. efold (d_q_bare_body h N ii) [ii + 1..<nblocks h]) [0..<nblocks h] [] of
        Inl e \<Rightarrow> Inl e
      | Inr bare \<Rightarrow>
     (let star = map (\<lambda>kv. (fst kv, conj_transpose3 (snd kv))) bare;
          dq = fold (\<lambda>kv acc q. mat_add (acc q) (mat_add (snd kv q) (conj_transpose3 (snd kv) q)))
                 bare (\<lambda>q. zeros_mat)
      in Inr (h\<lparr> h_full := Some \<lparr> fm_H_0 = acc_H_0 acc, fm_mu_q = acc_mu_q acc,
                                   fm_d_q_bare = bare, fm_d_q_star = star, fm_d_q = dq \<rparr> \<rparr>)))))"

text \<open>
  \<open>hamiltonian.return_full_H(self, Eq, Bq)\<close>.  \<open>Eq\<close> is an array or a dictionary of arrays;
  an array is promoted to the dictionary \<open>{'g->e': Eq}\<close>.
\<close>

datatype Eq_arg = EqArray "complex list" | EqDict "(string \<times> complex list) list"

fun promote_Eq :: "Eq_arg \<Rightarrow> (string \<times> complex list) list" where
  "promote_Eq (EqArray E) = [(''g->e'', E)]"
| "promote_Eq (EqDict kvs) = kvs"

definition dict_get :: "('k \<times> 'v) list \<Rightarrow> 'k \<Rightarrow> py_error + 'v" where
  "dict_get kvs k = (case map_of kvs k of None \<Rightarrow> Inl KeyError | Some v \<Rightarrow> Inr v)"

text \<open>\<open>np.tensordot(self.mu_q, np.conjugate(Bq), axes=(0, 0))\<close>, for \<open>Bq\<close> of length three.\<close>

definition mu_dot_conj :: "(nat \<Rightarrow> cmat) \<Rightarrow> complex list \<Rightarrow> cmat" where
  "mu_dot_conj mu Bq = (\<lambda>a b. \<Sum>q<3. mu q a b * cnj (Bq ! q))"

text \<open>\<open>(-1.)**q\<close> for \<open>q = ii - 1\<close>, the value enumerated with the index \<open>ii\<close>.\<close>

definition sign_q :: "nat \<Rightarrow> complex" where
  "sign_q ii = (if ii = 1 then 1 else - 1)"

definition full_H_body ::
  "full_matrices \<Rightarrow> string \<Rightarrow> complex list \<Rightarrow> nat \<Rightarrow> cmat \<Rightarrow> py_error + cmat" where
  "full_H_body fm key E ii H =
     (case dict_get (fm_d_q_bare fm) key of
        Inl e \<Rightarrow> Inl e
      | Inr bare \<Rightarrow>
     (case list_get E (2 - ii) of
        Inl e \<Rightarrow> Inl e
      | Inr Ec \<Rightarrow>
     (case dict_get (fm_d_q_star fm) key of
        Inl e \<Rightarrow> Inl e
      | Inr star \<Rightarrow>
          Inr (mat_sub H
                 (mat_add (mat_scale (1/2 * sign_q ii * Ec) (bare ii))
                          (mat_scale (1/2 * sign_q ii * cnj Ec) (star ii)))))))"

definition full_H_key_body ::
  "full_matrices \<Rightarrow> string \<times> complex list \<Rightarrow> cmat \<Rightarrow> py_error + cmat" where
  "full_H_key_body fm kv H = efold (full_H_body fm (fst kv) (snd kv)) range3 H"

definition return_full_H ::
  "hamiltonian \<Rightarrow> Eq_arg \<Rightarrow> complex list \<Rightarrow> py_error + hamiltonian \<times> cmat" where
  "return_full_H h Eq Bq =
     (case (case h_full h of None \<Rightarrow> make_full_matrices h | Some fm \<Rightarrow> Inr h) of
        Inl e \<Rightarrow> Inl e
      | Inr h' \<Rightarrow>
     (case h_full h' of
        None \<Rightarrow> Inl AttributeError
      | Some fm \<Rightarrow>
          if length Bq \<noteq> 3 then Inl ValueError
          else
            (case efold (full_H_key_body fm)
                    (promote_Eq Eq)
                    (mat_sub (fm_H_0 fm) (mu_dot_conj (fm_mu_q fm) Bq)) of
               Inl e \<Rightarrow> Inl e
             | Inr H \<Rightarrow> Inr (h', H))))"


section \<open>The instantaneous Hamiltonian in closed form\<close>

text \<open>
  The coupling that the loop over \<open>enumerate(np.arange(-1., 2., 1.))\<close> subtracts for one
  key: component \<open>ii\<close> of the dipole operator meets component \<open>2 - ii\<close> of the field.
\<close>

definition dipole_coupling ::
  "(nat \<Rightarrow> cmat) \<Rightarrow> (nat \<Rightarrow> cmat) \<Rightarrow> complex list \<Rightarrow> cmat" where
  "dipole_coupling bare star E =
     (\<lambda>a b. \<Sum>ii<3. 1/2 * sign_q ii * bare ii a b * (E ! (2 - ii))
                     + 1/2 * sign_q ii * star ii a b * cnj (E ! (2 - ii)))"

definition key_coupling :: "full_matrices \<Rightarrow> string \<times> complex list \<Rightarrow> cmat" where
  "key_coupling fm kv =
     (case (map_of (fm_d_q_bare fm) (fst kv), map_of (fm_d_q_star fm) (fst kv)) of
        (Some bare, Some star) \<Rightarrow> dipole_coupling bare star (snd kv)
      | _ \<Rightarrow> zeros_mat)"

definition registered :: "full_matrices \<Rightarrow> string \<Rightarrow> bool" where
  "registered fm key =
     (map_of (fm_d_q_bare fm) key \<noteq> None \<and> map_of (fm_d_q_star fm) key \<noteq> None)"

lemma lessThan_3: "{..<3::nat} = {0, 1, 2}"
  by auto

lemma full_H_key_body_closed:
  assumes reg: "registered fm (fst kv)" and len: "3 \<le> length (snd kv)"
  shows "full_H_key_body fm kv H = Inr (mat_sub H (key_coupling fm kv))"
proof -
  obtain bare star where b: "map_of (fm_d_q_bare fm) (fst kv) = Some bare"
    and s: "map_of (fm_d_q_star fm) (fst kv) = Some star"
    using reg by (auto simp add: registered_def)
  have body: "full_H_body fm (fst kv) (snd kv) ii M =
                Inr (mat_sub M
                       (mat_add (mat_scale (1/2 * sign_q ii * (snd kv ! (2 - ii))) (bare ii))
                                (mat_scale (1/2 * sign_q ii * cnj (snd kv ! (2 - ii))) (star ii))))"
    for ii M
    using len by (simp add: full_H_body_def dict_get_def list_get_def b s)
  have "full_H_key_body fm kv H =
          Inr (mat_sub (mat_sub (mat_sub H
             (mat_add (mat_scale (1/2 * sign_q 0 * (snd kv ! (2 - 0))) (bare 0))
                      (mat_scale (1/2 * sign_q 0 * cnj (snd kv ! (2 - 0))) (star 0))))
             (mat_add (mat_scale (1/2 * sign_q 1 * (snd kv ! (2 - 1))) (bare 1))
                      (mat_scale (1/2 * sign_q 1 * cnj (snd kv ! (2 - 1))) (star 1))))
             (mat_add (mat_scale (1/2 * sign_q 2 * (snd kv ! (2 - 2))) (bare 2))
                      (mat_scale (1/2 * sign_q 2 * cnj (snd kv ! (2 - 2))) (star 2))))"
    by (simp add: full_H_key_body_def range3_def body)
  also have "\<dots> = Inr (mat_sub H (key_coupling fm kv))"
    by (simp add: key_coupling_def b s dipole_coupling_def lessThan_3 mat_sub_def mat_add_def
          mat_scale_def fun_eq_iff algebra_simps)
  finally show ?thesis .
qed

lemma full_H_keys_closed:
  assumes "\<forall>kv\<in>set kvs. registered fm (fst kv) \<and> 3 \<le> length (snd kv)"
  shows "efold (full_H_key_body fm) kvs H =
           Inr (\<lambda>a b. H a b - (\<Sum>kv\<leftarrow>kvs. key_coupling fm kv a b))"
  using assms
proof (induction kvs arbitrary: H)
  case Nil
  show ?case by simp
next
  case (Cons kv kvs)
  have 1: "full_H_key_body fm kv H = Inr (mat_sub H (key_coupling fm kv))"
    using Cons.prems by (intro full_H_key_body_closed) simp_all
  have 2: "efold (full_H_key_body fm) kvs (mat_sub H (key_coupling fm kv)) =
             Inr (\<lambda>a b. mat_sub H (key_coupling fm kv) a b - (\<Sum>kv\<leftarrow>kvs. key_coupling fm kv a b))"
    using Cons.prems by (intro Cons.IH) simp
  have "efold (full_H_key_body fm) (kv # kvs) H =
          efold (full_H_key_body fm) kvs (mat_sub H (key_coupling fm kv))"
    by (simp add: 1)
  also note 2
  also have "Inr (\<lambda>a b. mat_sub H (key_coupling fm kv) a b - (\<Sum>kv\<leftarrow>kvs. key_coupling fm kv a b)) =
      (Inr (\<lambda>a b. H a b - (\<Sum>kv\<leftarrow>kv # kvs. key_coupling fm kv a b)) :: py_error + cmat)"
    by (simp add: mat_sub_def fun_eq_iff algebra_simps)
  finally show ?case .
qed

lemma return_full_H_closed:
  assumes full: "h_full h = Some fm" and B: "length Bq = 3"
    and keys: "\<forall>kv\<in>set kvs. registered fm (fst kv) \<and> 3 \<le> length (snd kv)"
  shows "return_full_H h (EqDict kvs) Bq =
           Inr (h, \<lambda>a b. fm_H_0 fm a b - (\<Sum>q<3. fm_mu_q fm q a b * cnj (Bq ! q))
                          - (\<Sum>kv\<leftarrow>kvs. key_coupling fm kv a b))"
  by (simp add: return_full_H_def full B full_H_keys_closed[OF keys] mat_sub_def mu_dot_conj_def)

lemma return_full_H_array:
  "return_full_H h (EqArray E) Bq = return_full_H h (EqDict [(''g->e'', E)]) Bq"
  by (simp only: return_full_H_def promote_Eq.simps)

text \<open>The Hamiltonian as the sentence of the specification words it: the dipole operator
  with the conjugated field, its conjugate with the field.\<close>

definition claimed_key_coupling :: "full_matrices \<Rightarrow> string \<times> complex list \<Rightarrow> cmat" where
  "claimed_key_coupling fm kv =
     (case (map_of (fm_d_q_bare fm) (fst kv), map_of (fm_d_q_star fm) (fst kv)) of
        (Some bare, Some star) \<Rightarrow>
          (\<lambda>a b. \<Sum>ii<3. 1/2 * sign_q ii * bare ii a b * cnj (snd kv ! ii)
                         + 1/2 * sign_q ii * star ii a b * (snd kv ! ii))
      | _ \<Rightarrow> zeros_mat)"

definition claimed_full_H :: "full_matrices \<Rightarrow> (string \<times> complex list) list \<Rightarrow> complex list \<Rightarrow> cmat" where
  "claimed_full_H fm kvs Bq =
     (\<lambda>a b. fm_H_0 fm a b - (\<Sum>q<3. fm_mu_q fm q a b * cnj (Bq ! q))
             - (\<Sum>kv\<leftarrow>kvs. claimed_key_coupling fm kv a b))"

definition ex_ge_hamiltonian :: hamiltonian where
  "ex_ge_hamiltonian =
     projr (make_full_matrices (projr (run_calls ex_two_level_calls (empty_hamiltonian 1))))"

definition ex_ab_hamiltonian :: hamiltonian where
  "ex_ab_hamiltonian =
     projr (make_full_matrices
       (projr (run_calls [AddH0 ''a'' ex_H1, AddH0 ''b'' ex_H1, AddDq ''a'' ''b'' ex_d1 1 1]
                 (empty_hamiltonian 1))))"

lemma make_full_matrices_full:
  assumes "make_full_matrices h0 = Inr h"
  shows "\<exists>fm. h_full h = Some fm
           \<and> fm_d_q_star fm = map (\<lambda>kv. (fst kv, conj_transpose3 (snd kv))) (fm_d_q_bare fm)"
proof (cases "h_n h0")
  case None
  then show ?thesis using assms by (simp add: make_full_matrices_def)
next
  case (Some N)
  let ?d = "efold (\<lambda>i acc. diag_body N (blocks h0 i i) acc) [0..<nblocks h0]
              \<lparr> acc_H_0 = zeros_mat, acc_mu_q = (\<lambda>q. zeros_mat), acc_off = 0 \<rparr>"
  let ?b = "efold (\<lambda>ii. efold (d_q_bare_body h0 N ii) [ii + 1..<nblocks h0]) [0..<nblocks h0] []"
  show ?thesis
  proof (cases ?d)
    case (Inl e)
    then show ?thesis using assms Some by (simp add: make_full_matrices_def)
  next
    case d: (Inr acc)
    show ?thesis
    proof (cases ?b)
      case (Inl e)
      then show ?thesis using assms Some d by (simp add: make_full_matrices_def)
    next
      case (Inr bare)
      then show ?thesis
        using assms Some d by (auto simp add: make_full_matrices_def Let_def)
    qed
  qed
qed

text \<open>
  C3 (as stated): \<open>return_full_H\<close> would subtract \<open>\<onehalf>[(-1)\<^sup>q d\<^sub>q E\<^sup>* + (-1)\<^sup>q d\<^sub>q\<^sup>* E]\<close> and treat a
  single field vector as addressing the sole registered transition.  For the two-level
  Hamiltonian \<open>g\<close>, \<open>e\<close> with the field \<open>(0, i, 0)\<close> the entry \<open>(0, 1)\<close> of the result is
  \<open>-i/2\<close>, not the \<open>+i/2\<close> of that formula (the code pairs \<open>d\<^sub>q\<close> with the unconjugated field);
  and for a Hamiltonian whose only transition is \<open>a->b\<close> a single field vector raises
  \<open>KeyError\<close>, while the mapping \<open>{'a->b': E}\<close> is accepted.
\<close>

theorem C3_pairing_and_key_counterexample:
  "snd (projr (return_full_H ex_ge_hamiltonian (EqDict [(''g->e'', [0, \<i>, 0])]) [0, 0, 0])) 0 1
     \<noteq> claimed_full_H (the (h_full ex_ge_hamiltonian)) [(''g->e'', [0, \<i>, 0])] [0, 0, 0] 0 1
   \<and> map fst (fm_d_q_bare (the (h_full ex_ab_hamiltonian))) = [''a->b'']
   \<and> isl (return_full_H ex_ab_hamiltonian (EqArray [0, \<i>, 0]) [0, 0, 0])
   \<and> \<not> isl (return_full_H ex_ab_hamiltonian (EqDict [(''a->b'', [0, \<i>, 0])]) [0, 0, 0])"
  unfolding ex_ge_hamiltonian_def ex_ab_hamiltonian_def by code_simp

text \<open>
  C3 (amended): for every assembled Hamiltonian (\<open>d_q_star\<close> being the componentwise
  conjugate transpose of \<open>d_q_bare\<close>), every \<open>Bq\<close> of three components and every \<open>Eq\<close> given
  as a mapping over registered transition keys with three components each,
  \<open>return_full_H(Eq, Bq)\<close> returns \<open>H\<^sub>0 - \<Sum>\<^sub>q mu_q[q]\<cdot>conj(Bq[q])\<close> minus, for every key of the
  mapping and each spherical index \<open>ii\<close> (with \<open>q = ii - 1\<close>), the coupling
  \<open>\<onehalf>(-1)\<^sup>q [d_q[key][ii]\<cdot>Eq[key][2-ii] + d_q_star[key][ii]\<cdot>conj(Eq[key][2-ii])]\<close>; a single
  field vector is treated as the mapping \<open>{'g->e': Eq}\<close>.
\<close>

theorem C3_return_full_H:
  assumes "make_full_matrices h0 = Inr h"
  shows "\<exists>fm. h_full h = Some fm
           \<and> fm_d_q_star fm = map (\<lambda>kv. (fst kv, conj_transpose3 (snd kv))) (fm_d_q_bare fm)
           \<and> (\<forall>Bq kvs. length Bq = 3 \<longrightarrow>
                 (\<forall>kv\<in>set kvs. registered fm (fst kv) \<and> 3 \<le> length (snd kv)) \<longrightarrow>
                 return_full_H h (EqDict kvs) Bq =
                   Inr (h, \<lambda>a b. fm_H_0 fm a b - (\<Sum>q<3. fm_mu_q fm q a b * cnj (Bq ! q))
                                  - (\<Sum>kv\<leftarrow>kvs. key_coupling fm kv a b)))
           \<and> (\<forall>Bq E. return_full_H h (EqArray E) Bq =
                        return_full_H h (EqDict [(''g->e'', E)]) Bq)"
proof -
  from make_full_matrices_full[OF assms] obtain fm where
    fm: "h_full h = Some fm"
    and st: "fm_d_q_star fm = map (\<lambda>kv. (fst kv, conj_transpose3 (snd kv))) (fm_d_q_bare fm)"
    by blast
  show ?thesis
    using fm st return_full_H_closed[OF fm] return_full_H_array[of h] by blast
qed

theorem C3_return_full_H_witness:
  "make_full_matrices (projr (run_calls ex_two_level_calls (empty_hamiltonian 1)))
     = Inr ex_ge_hamiltonian
   \<and> registered (the (h_full ex_ge_hamiltonian)) ''g->e''
   \<and> return_full_H ex_ge_hamiltonian (EqDict [(''g->e'', [0, \<i>, 0])]) [0, 0, 0] =
         Inr (ex_ge_hamiltonian,
              \<lambda>a b. fm_H_0 (the (h_full ex_ge_hamiltonian)) a b
                     - (\<Sum>q<3. fm_mu_q (the (h_full ex_ge_hamiltonian)) q a b * cnj ([0, 0, 0] ! q))
                     - (\<Sum>kv\<leftarrow>[(''g->e'', [0, \<i>, 0])].
                          key_coupling (the (h_full ex_ge_hamiltonian)) kv a b))"
proof -
  let ?m = "make_full_matrices (projr (run_calls ex_two_level_calls (empty_hamiltonian 1)))"
  have "\<not> isl ?m" by code_simp
  then have m: "?m = Inr ex_ge_hamiltonian"
    unfolding ex_ge_hamiltonian_def by (cases ?m) simp_all
  have reg: "registered (the (h_full ex_ge_hamiltonian)) ''g->e''"
    unfolding ex_ge_hamiltonian_def by code_simp
  from C3_return_full_H[OF m] obtain fm where
    fm: "h_full ex_ge_hamiltonian = Some fm"
    and cl: "\<forall>Bq kvs. length Bq = 3 \<longrightarrow>
                 (\<forall>kv\<in>set kvs. registered fm (fst kv) \<and> 3 \<le> length (snd kv)) \<longrightarrow>
                 return_full_H ex_ge_hamiltonian (EqDict kvs) Bq =
                   Inr (ex_ge_hamiltonian,
                        \<lambda>a b. fm_H_0 fm a b - (\<Sum>q<3. fm_mu_q fm q a b * cnj (Bq ! q))
                                  - (\<Sum>kv\<leftarrow>kvs. key_coupling fm kv a b))"
    by blast
  have the_fm: "the (h_full ex_ge_hamiltonian) = fm" using fm by simp
  have keys: "\<forall>kv\<in>set [(''g->e'', [0, \<i>, 0])]. registered fm (fst kv) \<and> 3 \<le> length (snd kv)"
    using reg unfolding the_fm by simp
  have len: "length [0, 0, 0 :: complex] = 3" by simp
  from cl[THEN spec, THEN spec, THEN mp, THEN mp, OF len keys] m reg
  show ?thesis unfolding the_fm by blast
qed

end
